theory Spec2Isabelle
  imports Main "HOL-Library.Word" "HOL-Library.AList"
begin

section \<open>JavaScript values\<close>

text \<open>
  The tracker of \<^verbatim>\<open>src/tracker-component.js\<close> works on JavaScript strings and plain
  objects. A JavaScript string is a sequence of 16-bit code units; a plain object is a
  list of its own properties in insertion order. The Flow types of the file
  (\<^verbatim>\<open>Product\<close>, \<^verbatim>\<open>ViewData\<close>, \<^verbatim>\<open>CartData\<close>, \<^verbatim>\<open>UserData\<close>, ...) only ever put strings,
  arrays and objects into tracked data, so the value type has no numbers and no
  functions.
\<close>

type_synonym jsstring = "16 word list"

definition u16 :: "char \<Rightarrow> 16 word" where
  "u16 c = of_nat (of_char c)"

definition js :: "string \<Rightarrow> jsstring" where
  "js s = map u16 s"

datatype error = TypeError | InvalidCharacterError | URIError | SyntaxError

datatype jsval =
    JUndefined
  | JNull
  | JBool bool
  | JStr jsstring
  | JArr "jsval list"
  | JObj "(jsstring \<times> jsval) list"

text \<open>ToBoolean, as used by \<^verbatim>\<open>!x\<close>, \<^verbatim>\<open>x || y\<close>, \<^verbatim>\<open>x && y\<close> and \<^verbatim>\<open>if (x)\<close>.\<close>

fun truthy :: "jsval \<Rightarrow> bool" where
  "truthy JUndefined = False"
| "truthy JNull = False"
| "truthy (JBool b) = b"
| "truthy (JStr s) = (s \<noteq> [])"
| "truthy (JArr vs) = True"
| "truthy (JObj kvs) = True"

definition js_or :: "jsval \<Rightarrow> jsval \<Rightarrow> jsval" where
  "js_or a b = (if truthy a then a else b)"

text \<open>
  Property read \<^verbatim>\<open>v.k\<close>. Reading a property of \<^verbatim>\<open>undefined\<close> or \<^verbatim>\<open>null\<close> throws a
  TypeError. The tracker only reads the names \<^verbatim>\<open>user\<close>, \<^verbatim>\<open>email\<close>, \<^verbatim>\<open>name\<close>,
  \<^verbatim>\<open>property\<close>, \<^verbatim>\<open>id\<close>, \<^verbatim>\<open>deal_id\<close>, \<^verbatim>\<open>option_id\<close>, \<^verbatim>\<open>count\<close>, \<^verbatim>\<open>text\<close>,
  \<^verbatim>\<open>refinements\<close>, \<^verbatim>\<open>payload\<close>, \<^verbatim>\<open>event\<close>, \<^verbatim>\<open>price\<close> and \<^verbatim>\<open>title\<close>; none of them is
  a property of the built-in prototypes, so on a string, an array or a boolean the
  read gives \<^verbatim>\<open>undefined\<close>.
\<close>

fun member :: "jsval \<Rightarrow> jsstring \<Rightarrow> error + jsval" where
  "member JUndefined k = Inl TypeError"
| "member JNull k = Inl TypeError"
| "member (JObj kvs) k = Inr (case map_of kvs k of None \<Rightarrow> JUndefined | Some v \<Rightarrow> v)"
| "member v k = Inr JUndefined"

text \<open>Decimal digits of an array index, for the keys of a spread string or array.\<close>

function decimal :: "nat \<Rightarrow> string" where
  "decimal n = (if n < 10 then [char_of (48 + n)]
                else decimal (n div 10) @ [char_of (48 + n mod 10)])"
  by pat_completeness auto
termination
  by (relation "measure (\<lambda>n. n)") auto

declare decimal.simps [simp del]

definition indexed :: "jsval list \<Rightarrow> (jsstring \<times> jsval) list" where
  "indexed vs = zip (map (\<lambda>i. js (decimal i)) [0..<length vs]) vs"

text \<open>
  Object spread \<^verbatim>\<open>{ ...v }\<close> into an empty literal: the own enumerable properties of
  \<^verbatim>\<open>v\<close> in order. \<^verbatim>\<open>undefined\<close>, \<^verbatim>\<open>null\<close> and booleans contribute nothing; a string
  contributes its code units and an array its elements under their indices.
\<close>

fun spread :: "jsval \<Rightarrow> (jsstring \<times> jsval) list" where
  "spread (JObj kvs) = kvs"
| "spread (JStr s) = indexed (map (\<lambda>c. JStr [c]) s)"
| "spread (JArr vs) = indexed vs"
| "spread v = []"

text \<open>
  A property definition \<^verbatim>\<open>k: v\<close> later in an object literal: it replaces the value of
  an existing key in place and appends a new key at the end.
\<close>

definition set_prop :: "string \<Rightarrow> jsval \<Rightarrow> (jsstring \<times> jsval) list \<Rightarrow> (jsstring \<times> jsval) list" where
  "set_prop k v kvs = AList.update (js k) v kvs"

section \<open>Platform functions used by the tracker\<close>

subsection \<open>JSON.stringify\<close>

definition hexdigit :: "nat \<Rightarrow> 16 word" where
  "hexdigit n = (if n < 10 then of_nat (48 + n) else of_nat (87 + n))"

definition hex4 :: "16 word \<Rightarrow> jsstring" where
  "hex4 c = (let u = unat c in
     [hexdigit (u div 4096), hexdigit (u div 256 mod 16), hexdigit (u div 16 mod 16),
      hexdigit (u mod 16)])"

definition is_lead :: "16 word \<Rightarrow> bool" where
  "is_lead c = (0xD800 \<le> c \<and> c \<le> 0xDBFF)"

definition is_trail :: "16 word \<Rightarrow> bool" where
  "is_trail c = (0xDC00 \<le> c \<and> c \<le> 0xDFFF)"

text \<open>
  QuoteJSONString on one code point that is not a surrogate pair: the short escapes,
  \<^verbatim>\<open>\uXXXX\<close> for the other control characters and for a lone surrogate, the code unit
  itself otherwise.
\<close>

definition quote1 :: "16 word \<Rightarrow> jsstring" where
  "quote1 c =
     (if c = 0x08 then [0x5C, 0x62]
      else if c = 0x09 then [0x5C, 0x74]
      else if c = 0x0A then [0x5C, 0x6E]
      else if c = 0x0C then [0x5C, 0x66]
      else if c = 0x0D then [0x5C, 0x72]
      else if c = 0x22 then [0x5C, 0x22]
      else if c = 0x5C then [0x5C, 0x5C]
      else if c < 0x20 \<or> is_lead c \<or> is_trail c then [0x5C, 0x75] @ hex4 c
      else [c])"

fun quote_units :: "jsstring \<Rightarrow> jsstring" where
  "quote_units [] = []"
| "quote_units [c] = quote1 c"
| "quote_units (c # d # cs) =
     (if is_lead c \<and> is_trail d then c # d # quote_units cs
      else quote1 c @ quote_units (d # cs))"

definition quoteJSON :: "jsstring \<Rightarrow> jsstring" where
  "quoteJSON s = 0x22 # quote_units s @ [0x22]"

fun join_comma :: "jsstring list \<Rightarrow> jsstring" where
  "join_comma [] = []"
| "join_comma [x] = x"
| "join_comma (x # y # r) = x @ 0x2C # join_comma (y # r)"

text \<open>
  SerializeJSONProperty without indentation. A property whose value is \<^verbatim>\<open>undefined\<close>
  is left out of an object; an \<^verbatim>\<open>undefined\<close> array element is written \<^verbatim>\<open>null\<close>, which
  is what \<open>ser JUndefined\<close> stands for.
\<close>

fun ser :: "jsval \<Rightarrow> jsstring" where
  "ser JUndefined = js ''null''"
| "ser JNull = js ''null''"
| "ser (JBool b) = (if b then js ''true'' else js ''false'')"
| "ser (JStr s) = quoteJSON s"
| "ser (JArr vs) = 0x5B # join_comma (map ser vs) @ [0x5D]"
| "ser (JObj kvs) =
     0x7B # join_comma (map (\<lambda>kv. quoteJSON (fst kv) @ 0x3A # ser (snd kv))
                            (filter (\<lambda>kv. snd kv \<noteq> JUndefined) kvs)) @ [0x7D]"

text \<open>\<^verbatim>\<open>JSON.stringify(v)\<close>: \<^verbatim>\<open>undefined\<close> for \<^verbatim>\<open>undefined\<close>, the JSON text otherwise.\<close>

definition JSON_stringify :: "jsval \<Rightarrow> jsval" where
  "JSON_stringify v = (if v = JUndefined then JUndefined else JStr (ser v))"

subsection \<open>btoa\<close>

definition b64c :: "nat \<Rightarrow> 16 word" where
  "b64c n =
     (if n < 26 then of_nat (65 + n)
      else if n < 52 then of_nat (71 + n)
      else if n < 62 then of_nat (n - 4)
      else if n = 62 then 0x2B
      else 0x2F)"

fun sextets :: "nat list \<Rightarrow> nat list" where
  "sextets [] = []"
| "sextets [a] = [a div 4, a mod 4 * 16]"
| "sextets [a, b] = [a div 4, a mod 4 * 16 + b div 16, b mod 16 * 4]"
| "sextets (a # b # c # r) =
     [a div 4, a mod 4 * 16 + b div 16, b mod 16 * 4 + c div 64, c mod 64] @ sextets r"

definition b64_encode :: "nat list \<Rightarrow> jsstring" where
  "b64_encode bs = map b64c (sextets bs) @ replicate ((3 - length bs mod 3) mod 3) 0x3D"

text \<open>
  \<^verbatim>\<open>btoa(s)\<close> reads each code unit as one byte and throws InvalidCharacterError when a
  code unit is above 0xFF.
\<close>

definition btoa :: "jsstring \<Rightarrow> error + jsstring" where
  "btoa s = (if list_all (\<lambda>c. c \<le> 0xFF) s then Inr (b64_encode (map unat s))
             else Inl InvalidCharacterError)"

subsection \<open>encodeURIComponent\<close>

definition unreserved :: "16 word \<Rightarrow> bool" where
  "unreserved c =
     ((0x41 \<le> c \<and> c \<le> 0x5A) \<or> (0x61 \<le> c \<and> c \<le> 0x7A) \<or> (0x30 \<le> c \<and> c \<le> 0x39)
      \<or> c \<in> set [0x2D, 0x5F, 0x2E, 0x21, 0x7E, 0x2A, 0x27, 0x28, 0x29])"

definition HEXDIGIT :: "nat \<Rightarrow> 16 word" where
  "HEXDIGIT n = (if n < 10 then of_nat (48 + n) else of_nat (55 + n))"

definition pct :: "nat list \<Rightarrow> jsstring" where
  "pct bs = concat (map (\<lambda>b. [0x25, HEXDIGIT (b div 16), HEXDIGIT (b mod 16)]) bs)"

definition utf8 :: "nat \<Rightarrow> nat list" where
  "utf8 cp =
     (if cp < 0x80 then [cp]
      else if cp < 0x800 then [0xC0 + cp div 64, 0x80 + cp mod 64]
      else if cp < 0x10000 then [0xE0 + cp div 4096, 0x80 + cp div 64 mod 64, 0x80 + cp mod 64]
      else [0xF0 + cp div 262144, 0x80 + cp div 4096 mod 64, 0x80 + cp div 64 mod 64,
            0x80 + cp mod 64])"

definition pair_cp :: "16 word \<Rightarrow> 16 word \<Rightarrow> nat" where
  "pair_cp c d = 0x10000 + (unat c - 0xD800) * 0x400 + (unat d - 0xDC00)"

text \<open>
  \<^verbatim>\<open>encodeURIComponent(s)\<close>: unreserved characters stay, every other code point is
  written as the percent-escaped bytes of its UTF-8 form, and a lone surrogate throws
  URIError.
\<close>

fun encodeURIComponent :: "jsstring \<Rightarrow> error + jsstring" where
  "encodeURIComponent [] = Inr []"
| "encodeURIComponent (c # cs) =
     (if unreserved c then
        (case encodeURIComponent cs of Inl e \<Rightarrow> Inl e | Inr r \<Rightarrow> Inr (c # r))
      else if is_lead c then
        (case cs of
           [] \<Rightarrow> Inl URIError
         | d # ds \<Rightarrow>
             if is_trail d then
               (case encodeURIComponent ds of
                  Inl e \<Rightarrow> Inl e
                | Inr r \<Rightarrow> Inr (pct (utf8 (pair_cp c d)) @ r))
             else Inl URIError)
      else if is_trail c then Inl URIError
      else
        (case encodeURIComponent cs of
           Inl e \<Rightarrow> Inl e
         | Inr r \<Rightarrow> Inr (pct (utf8 (unat c)) @ r)))"

definition encodeData :: "jsval \<Rightarrow> error + jsstring" where
  \<comment> \<open>line 142: \<^verbatim>\<open>encodeURIComponent(btoa(JSON.stringify(data)))\<close>; \<^verbatim>\<open>btoa\<close> turns
      \<^verbatim>\<open>undefined\<close> into the string \<^verbatim>\<open>undefined\<close>\<close>
  "encodeData data =
     (case btoa (case JSON_stringify data of JStr s \<Rightarrow> s | _ \<Rightarrow> js ''undefined'') of
        Inl e \<Rightarrow> Inl e
      | Inr b \<Rightarrow> encodeURIComponent b)"

section \<open>The inverse platform functions\<close>

text \<open>
  The tracker never decodes a beacon; the receiving side does. These are the standard
  inverses: \<^verbatim>\<open>decodeURIComponent\<close>, \<^verbatim>\<open>atob\<close> and \<^verbatim>\<open>JSON.parse\<close>.
\<close>

subsection \<open>decodeURIComponent\<close>

definition hexval :: "16 word \<Rightarrow> nat option" where
  "hexval c =
     (let u = unat c in
      if 48 \<le> u \<and> u \<le> 57 then Some (u - 48)
      else if 65 \<le> u \<and> u \<le> 70 then Some (u - 55)
      else if 97 \<le> u \<and> u \<le> 102 then Some (u - 87)
      else None)"

datatype item = Raw "16 word" | Octet nat

text \<open>First the percent escapes are read: \<^verbatim>\<open>%\<close> must be followed by two hex digits.\<close>

fun pct_items :: "jsstring \<Rightarrow> item list option" where
  "pct_items [] = Some []"
| "pct_items (c # cs) =
     (if c = 0x25 then
        (case cs of
           h1 # h2 # r \<Rightarrow>
             (case (hexval h1, hexval h2) of
                (Some a, Some b) \<Rightarrow>
                  (case pct_items r of None \<Rightarrow> None | Some is \<Rightarrow> Some (Octet (a * 16 + b) # is))
              | _ \<Rightarrow> None)
         | _ \<Rightarrow> None)
      else (case pct_items cs of None \<Rightarrow> None | Some is \<Rightarrow> Some (Raw c # is)))"

definition continuation :: "nat \<Rightarrow> bool" where
  "continuation b = (0x80 \<le> b \<and> b < 0xC0)"

definition utf16 :: "nat \<Rightarrow> jsstring" where
  "utf16 cp =
     (if cp < 0x10000 then [of_nat cp]
      else [of_nat (0xD800 + (cp - 0x10000) div 0x400), of_nat (0xDC00 + (cp - 0x10000) mod 0x400)])"

text \<open>
  Then every run of escaped bytes must be the UTF-8 form of one code point (shortest
  form, no surrogate, at most U+10FFFF); it is written back as UTF-16.
\<close>

fun utf8_units :: "item list \<Rightarrow> jsstring option" where
  "utf8_units [] = Some []"
| "utf8_units (Raw c # r) =
     (case utf8_units r of None \<Rightarrow> None | Some s \<Rightarrow> Some (c # s))"
| "utf8_units (Octet b # r) =
     (if b < 0x80 then
        (case utf8_units r of None \<Rightarrow> None | Some s \<Rightarrow> Some (of_nat b # s))
      else if 0xC0 \<le> b \<and> b < 0xE0 then
        (case r of
           Octet b2 # r' \<Rightarrow>
             (let cp = (b - 0xC0) * 64 + (b2 - 0x80) in
              if continuation b2 \<and> 0x80 \<le> cp then
                (case utf8_units r' of None \<Rightarrow> None | Some s \<Rightarrow> Some (utf16 cp @ s))
              else None)
         | _ \<Rightarrow> None)
      else if 0xE0 \<le> b \<and> b < 0xF0 then
        (case r of
           Octet b2 # Octet b3 # r' \<Rightarrow>
             (let cp = (b - 0xE0) * 4096 + (b2 - 0x80) * 64 + (b3 - 0x80) in
              if continuation b2 \<and> continuation b3 \<and> 0x800 \<le> cp
                 \<and> \<not> (0xD800 \<le> cp \<and> cp \<le> 0xDFFF) then
                (case utf8_units r' of None \<Rightarrow> None | Some s \<Rightarrow> Some (utf16 cp @ s))
              else None)
         | _ \<Rightarrow> None)
      else if 0xF0 \<le> b \<and> b < 0xF8 then
        (case r of
           Octet b2 # Octet b3 # Octet b4 # r' \<Rightarrow>
             (let cp = (b - 0xF0) * 262144 + (b2 - 0x80) * 4096 + (b3 - 0x80) * 64 + (b4 - 0x80) in
              if continuation b2 \<and> continuation b3 \<and> continuation b4 \<and> 0x10000 \<le> cp
                 \<and> cp \<le> 0x10FFFF then
                (case utf8_units r' of None \<Rightarrow> None | Some s \<Rightarrow> Some (utf16 cp @ s))
              else None)
         | _ \<Rightarrow> None)
      else None)"

definition decodeURIComponent :: "jsstring \<Rightarrow> error + jsstring" where
  "decodeURIComponent s =
     (case pct_items s of
        None \<Rightarrow> Inl URIError
      | Some is \<Rightarrow> (case utf8_units is of None \<Rightarrow> Inl URIError | Some r \<Rightarrow> Inr r))"

subsection \<open>atob\<close>

definition b64v :: "16 word \<Rightarrow> nat option" where
  "b64v c =
     (let u = unat c in
      if 65 \<le> u \<and> u \<le> 90 then Some (u - 65)
      else if 97 \<le> u \<and> u \<le> 122 then Some (u - 71)
      else if 48 \<le> u \<and> u \<le> 57 then Some (u + 4)
      else if u = 43 then Some 62
      else if u = 47 then Some 63
      else None)"

definition b64_space :: "16 word \<Rightarrow> bool" where
  "b64_space c = (c \<in> set [0x09, 0x0A, 0x0C, 0x0D, 0x20])"

definition strip_pad :: "jsstring \<Rightarrow> jsstring" where
  "strip_pad d =
     (if d \<noteq> [] \<and> last d = 0x3D then
        (let d1 = butlast d in if d1 \<noteq> [] \<and> last d1 = 0x3D then butlast d1 else d1)
      else d)"

fun b64_decode :: "nat list \<Rightarrow> nat list" where
  "b64_decode (w # x # y # z # r) =
     [w * 4 + x div 16, x mod 16 * 16 + y div 4, y mod 4 * 64 + z] @ b64_decode r"
| "b64_decode [w, x, y] = [w * 4 + x div 16, x mod 16 * 16 + y div 4]"
| "b64_decode [w, x] = [w * 4 + x div 16]"
| "b64_decode r = []"

text \<open>
  \<^verbatim>\<open>atob(s)\<close>, the forgiving base64 decoding: ASCII whitespace is dropped, one or two
  trailing \<^verbatim>\<open>=\<close> are dropped when the length is a multiple of four, a remaining length
  of one modulo four or a character outside the alphabet throws, and the left-over
  bits of the last group are discarded.
\<close>

definition atob :: "jsstring \<Rightarrow> error + jsstring" where
  "atob s =
     (let d = filter (\<lambda>c. \<not> b64_space c) s;
          d' = (if length d mod 4 = 0 then strip_pad d else d)
      in if length d' mod 4 = 1 then Inl InvalidCharacterError
         else (case those (map b64v d') of
                 None \<Rightarrow> Inl InvalidCharacterError
               | Some sx \<Rightarrow> Inr (map of_nat (b64_decode sx))))"

subsection \<open>JSON.parse\<close>

definition json_space :: "16 word \<Rightarrow> bool" where
  "json_space c = (c \<in> set [0x09, 0x0A, 0x0D, 0x20])"

fun skip_ws :: "jsstring \<Rightarrow> jsstring" where
  "skip_ws [] = []"
| "skip_ws (c # cs) = (if json_space c then skip_ws cs else c # cs)"

fun strip_prefix :: "jsstring \<Rightarrow> jsstring \<Rightarrow> jsstring option" where
  "strip_prefix [] s = Some s"
| "strip_prefix (p # ps) [] = None"
| "strip_prefix (p # ps) (c # cs) = (if p = c then strip_prefix ps cs else None)"

definition unescape :: "16 word \<Rightarrow> 16 word option" where
  "unescape e =
     (if e = 0x22 then Some 0x22
      else if e = 0x5C then Some 0x5C
      else if e = 0x2F then Some 0x2F
      else if e = 0x62 then Some 0x08
      else if e = 0x66 then Some 0x0C
      else if e = 0x6E then Some 0x0A
      else if e = 0x72 then Some 0x0D
      else if e = 0x74 then Some 0x09
      else None)"

definition hex4val :: "16 word \<Rightarrow> 16 word \<Rightarrow> 16 word \<Rightarrow> 16 word \<Rightarrow> 16 word option" where
  "hex4val h1 h2 h3 h4 =
     (case (hexval h1, hexval h2, hexval h3, hexval h4) of
        (Some a, Some b, Some c, Some d) \<Rightarrow> Some (of_nat (a * 4096 + b * 256 + c * 16 + d))
      | _ \<Rightarrow> None)"

text \<open>
  The characters of a JSON string after its opening quote, up to the closing quote:
  the content and the text that follows.
\<close>

fun parse_chars :: "jsstring \<Rightarrow> (jsstring \<times> jsstring) option" where
  "parse_chars [] = None"
| "parse_chars (c # cs) =
     (if c = 0x22 then Some ([], cs)
      else if c = 0x5C then
        (case cs of
           [] \<Rightarrow> None
         | e # es \<Rightarrow>
             if e = 0x75 then
               (case es of
                  h1 # h2 # h3 # h4 # r \<Rightarrow>
                    (case hex4val h1 h2 h3 h4 of
                       None \<Rightarrow> None
                     | Some u \<Rightarrow>
                         (case parse_chars r of None \<Rightarrow> None | Some (s, r') \<Rightarrow> Some (u # s, r')))
                | _ \<Rightarrow> None)
             else
               (case unescape e of
                  None \<Rightarrow> None
                | Some u \<Rightarrow>
                    (case parse_chars es of None \<Rightarrow> None | Some (s, r') \<Rightarrow> Some (u # s, r'))))
      else if c < 0x20 then None
      else (case parse_chars cs of None \<Rightarrow> None | Some (s, r') \<Rightarrow> Some (c # s, r')))"

text \<open>
  Members are added to the object under construction in the order of the text; a
  repeated key keeps its first place and takes the last value.
\<close>

definition collect :: "(jsstring \<times> jsval) list \<Rightarrow> (jsstring \<times> jsval) list" where
  "collect kvs = foldl (\<lambda>acc kv. AList.update (fst kv) (snd kv) acc) [] kvs"

text \<open>
  A recursive-descent parser for the JSON grammar without numbers (the value type has
  none, so a text with a number token is answered as a syntax error here). The first
  argument bounds the depth of the recursion; the length of the text is enough.
\<close>

fun parse_value :: "nat \<Rightarrow> jsstring \<Rightarrow> (jsval \<times> jsstring) option"
  and parse_elems :: "nat \<Rightarrow> jsstring \<Rightarrow> (jsval list \<times> jsstring) option"
  and parse_members :: "nat \<Rightarrow> jsstring \<Rightarrow> ((jsstring \<times> jsval) list \<times> jsstring) option"
where
  "parse_value 0 s = None"
| "parse_value (Suc n) s =
     (case skip_ws s of
        [] \<Rightarrow> None
      | c # cs \<Rightarrow>
          if c = 0x22 then
            (case parse_chars cs of None \<Rightarrow> None | Some (t, r) \<Rightarrow> Some (JStr t, r))
          else if c = 0x5B then
            (case skip_ws cs of
               [] \<Rightarrow> None
             | d # ds \<Rightarrow>
                 if d = 0x5D then Some (JArr [], ds)
                 else (case parse_elems n cs of None \<Rightarrow> None | Some (vs, r) \<Rightarrow> Some (JArr vs, r)))
          else if c = 0x7B then
            (case skip_ws cs of
               [] \<Rightarrow> None
             | d # ds \<Rightarrow>
                 if d = 0x7D then Some (JObj [], ds)
                 else (case parse_members n cs of
                         None \<Rightarrow> None
                       | Some (kvs, r) \<Rightarrow> Some (JObj (collect kvs), r)))
          else
            (case strip_prefix (js ''null'') (c # cs) of
               Some r \<Rightarrow> Some (JNull, r)
             | None \<Rightarrow>
                 (case strip_prefix (js ''true'') (c # cs) of
                    Some r \<Rightarrow> Some (JBool True, r)
                  | None \<Rightarrow>
                      (case strip_prefix (js ''false'') (c # cs) of
                         Some r \<Rightarrow> Some (JBool False, r)
                       | None \<Rightarrow> None))))"
| "parse_elems 0 s = None"
| "parse_elems (Suc n) s =
     (case parse_value n s of
        None \<Rightarrow> None
      | Some (v, r) \<Rightarrow>
          (case skip_ws r of
             [] \<Rightarrow> None
           | c # cs \<Rightarrow>
               if c = 0x2C then
                 (case parse_elems n cs of None \<Rightarrow> None | Some (vs, r') \<Rightarrow> Some (v # vs, r'))
               else if c = 0x5D then Some ([v], cs)
               else None))"
| "parse_members 0 s = None"
| "parse_members (Suc n) s =
     (case skip_ws s of
        [] \<Rightarrow> None
      | q # s1 \<Rightarrow>
          if q = 0x22 then
            (case parse_chars s1 of
               None \<Rightarrow> None
             | Some (k, s2) \<Rightarrow>
                 (case skip_ws s2 of
                    [] \<Rightarrow> None
                  | c # s3 \<Rightarrow>
                      if c = 0x3A then
                        (case parse_value n s3 of
                           None \<Rightarrow> None
                         | Some (v, s4) \<Rightarrow>
                             (case skip_ws s4 of
                                [] \<Rightarrow> None
                              | d # s5 \<Rightarrow>
                                  if d = 0x2C then
                                    (case parse_members n s5 of
                                       None \<Rightarrow> None
                                     | Some (kvs, r) \<Rightarrow> Some ((k, v) # kvs, r))
                                  else if d = 0x7D then Some ([(k, v)], s5)
                                  else None))
                      else None))
          else None)"

definition JSON_parse :: "jsstring \<Rightarrow> error + jsval" where
  "JSON_parse s =
     (case parse_value (Suc (length s)) s of
        None \<Rightarrow> Inl SyntaxError
      | Some (v, r) \<Rightarrow> if skip_ws r = [] then Inr v else Inl SyntaxError)"

section \<open>The tracker\<close>

subsection \<open>Configuration and the world outside\<close>

text \<open>
  The \<^verbatim>\<open>Config\<close> type of lines 69-85. An optional field that is absent is
  \<^verbatim>\<open>undefined\<close>; the override and the jetlore credentials are options. The override
  takes the two fields of its argument \<^verbatim>\<open>{ trackingType, data }\<close>.
\<close>

record jetlore_config =
  user_id :: jsval
  access_token :: jsval
  feed_id :: jsval
  div_value :: jsval
  lang :: jsval

record config =
  user :: jsval
  property :: jsval
  paramsToBeaconUrl :: "(jsstring \<Rightarrow> jsval \<Rightarrow> jsstring) option"
  jetlore :: "jetlore_config option"

text \<open>
  Everything the tracker reads or changes outside its configuration: the cookie jar,
  the identifier generator, the SDK's client and merchant identifiers, the document
  and the jetlore client. \<open>images\<close> lists the \<^verbatim>\<open>src\<close> of every image element whose
  \<^verbatim>\<open>src\<close> was set, \<open>body\<close> the images appended to \<^verbatim>\<open>document.body\<close> (\<open>None\<close> when
  the document has no body). \<open>payloads\<close> is a history variable: every \<^verbatim>\<open>data\<close> object
  built at lines 156-163, in order; nothing reads it. \<open>JL_tracking\<close> and
  \<open>JL_tracker\<close> list the calls of \<^verbatim>\<open>JL.tracking(config)\<close> and of
  \<^verbatim>\<open>JL.tracker[type](payload)\<close>.
\<close>

record world =
  cookies :: "jsstring \<rightharpoonup> jsval \<times> nat"
  generated :: nat
  fresh_id :: "nat \<Rightarrow> jsstring"
  clientID :: jsstring
  merchantID :: "jsstring list"
  body :: "jsstring list option"
  images :: "jsstring list"
  payloads :: "jsval list"
  JL_tracking :: "jsval list"
  JL_tracker :: "(jsstring \<times> jsval) list"

text \<open>
  Modelled from the spec: \<^verbatim>\<open>getCookie\<close> and \<^verbatim>\<open>setCookie\<close> of \<^verbatim>\<open>./lib/cookie-utils\<close>
  are not among the sources. The spec gives a named storage key holding a value with a
  fixed time-to-live, read back as absent when it was never stored.
\<close>

definition getCookie :: "jsstring \<Rightarrow> world \<Rightarrow> jsval" where
  "getCookie name w = (case cookies w name of None \<Rightarrow> JUndefined | Some (v, ttl) \<Rightarrow> v)"

definition setCookie :: "jsstring \<Rightarrow> jsval \<Rightarrow> nat \<Rightarrow> world \<Rightarrow> world" where
  "setCookie name v ttl w = w\<lparr>cookies := (cookies w)(name \<mapsto> (v, ttl))\<rparr>"

text \<open>
  Modelled from the spec: \<^verbatim>\<open>generateId\<close> of \<^verbatim>\<open>./generate-id\<close> is not among the
  sources. The spec gives an opaque provided service that generates a new random
  identifier; here the \<open>n\<close>-th call returns \<open>fresh_id w n\<close> and is counted.
\<close>

definition generateId :: "world \<Rightarrow> jsval \<times> world" where
  "generateId w = (JStr (fresh_id w (generated w)), w\<lparr>generated := Suc (generated w)\<rparr>)"

subsection \<open>Lines 87-96: the identity cookie\<close>

definition sevenDays :: nat where
  "sevenDays = 604800000"

definition getUserIdCookie :: "world \<Rightarrow> jsval" where
  "getUserIdCookie w = js_or (getCookie (js ''paypal-user-id'') w) JNull"

definition ONE_MONTH_IN_MILLISECONDS :: nat where
  "ONE_MONTH_IN_MILLISECONDS = 30 * 24 * 60 * 60 * 1000"

definition setRandomUserIdCookie :: "world \<Rightarrow> world" where
  "setRandomUserIdCookie w =
     (case generateId w of
        (ident, w1) \<Rightarrow> setCookie (js ''paypal-user-id'') ident ONE_MONTH_IN_MILLISECONDS w1)"

subsection \<open>Lines 98-139: getJetlorePayload\<close>

text \<open>
  The declaration at line 98 is misspelt in the source (\<^verbatim>\<open>cosnt\<close>, and the arrow is
  missing); it is read as the function of two parameters it evidently declares.
  \<open>fields p ks\<close> is the object literal \<^verbatim>\<open>{ k1: p.k1, k2: p.k2, ... }\<close>. The \<^verbatim>\<open>switch\<close>
  compares with \<^verbatim>\<open>===\<close>, and a value that matches no case leaves the function without
  a \<^verbatim>\<open>return\<close>, which gives \<^verbatim>\<open>undefined\<close>.
\<close>

fun fields :: "jsval \<Rightarrow> string list \<Rightarrow> error + (jsstring \<times> jsval) list" where
  "fields p [] = Inr []"
| "fields p (k # ks) =
     (case member p (js k) of
        Inl e \<Rightarrow> Inl e
      | Inr v \<Rightarrow> (case fields p ks of Inl e \<Rightarrow> Inl e | Inr r \<Rightarrow> Inr ((js k, v) # r)))"

definition getJetlorePayload :: "jsval \<Rightarrow> jsval \<Rightarrow> error + jsval" where
  "getJetlorePayload type payload =
     (if type \<in> set [JStr (js ''addToCart''), JStr (js ''removeFromCart''), JStr (js ''purchase'')] then
        map_sum id JObj (fields payload [''deal_id'', ''option_id'', ''count''])
      else if type = JStr (js ''search'') then
        map_sum id JObj (fields payload [''text''])
      else if type \<in> set [JStr (js ''view''), JStr (js ''browse_section'')] then
        map_sum id JObj (fields payload [''name'', ''refinements''])
      else if type = JStr (js ''browse_promo'') then
        map_sum id JObj (fields payload [''name'', ''id''])
      else if type \<in> set [JStr (js ''addToWishList''), JStr (js ''removeFromWishList''),
                           JStr (js ''addToFavorites''), JStr (js ''removeFromFavorites'')] then
        member payload (js ''payload'')
      else if type = JStr (js ''track'') then
        map_sum id JObj (fields payload [''event'', ''deal_id'', ''count'', ''price'', ''title'',
                                        ''option_id'', ''text''])
      else Inr JUndefined)"

subsection \<open>Lines 141-180: track and trackCartEvent\<close>

text \<open>Lines 147-149: the identity cookie is created when \<^verbatim>\<open>getUserIdCookie()\<close> is falsy.\<close>

definition ensureIdentity :: "world \<Rightarrow> world" where
  "ensureIdentity w = (if \<not> truthy (getUserIdCookie w) then setRandomUserIdCookie w else w)"

text \<open>Lines 151-163: the \<^verbatim>\<open>user\<close> object and the merged \<^verbatim>\<open>data\<close> object.\<close>

definition trackData :: "config \<Rightarrow> jsstring \<Rightarrow> jsval \<Rightarrow> world \<Rightarrow> jsval" where
  "trackData config trackingType trackingData w =
     (let user_obj = JObj (set_prop ''id'' (getUserIdCookie w) (spread (user config)))
      in JObj (set_prop ''merchantId'' (JStr (join_comma (merchantID w)))
              (set_prop ''clientId'' (JStr (clientID w))
              (set_prop ''trackingType'' (JStr trackingType)
              (set_prop ''property'' (property config)
              (set_prop ''user'' user_obj
              (spread trackingData)))))))"

text \<open>
  Lines 168-172: the image source. With an override it is the override's answer; else
  the template around \<open>encodeData data\<close>, whose \<^verbatim>\<open>btoa\<close> can throw.
\<close>

definition beaconUrl :: "config \<Rightarrow> jsstring \<Rightarrow> jsval \<Rightarrow> error + jsstring" where
  "beaconUrl config trackingType data =
     (case paramsToBeaconUrl config of
        Some f \<Rightarrow> Inr (f trackingType data)
      | None \<Rightarrow>
          (case encodeData data of
             Inl e \<Rightarrow> Inl e
           | Inr enc \<Rightarrow>
               Inr (js ''https://www.paypal.com/targeting/track/'' @ trackingType
                    @ js ''?data='' @ enc)))"

text \<open>
  The whole of \<^verbatim>\<open>track\<close>. A thrown error leaves the function at once; what was done
  before (the cookie, the payload) stays done.
\<close>

definition track :: "config \<Rightarrow> jsstring \<Rightarrow> jsval \<Rightarrow> world \<Rightarrow> (error + unit) \<times> world" where
  "track config trackingType trackingData w =
     (let w1 = ensureIdentity w;
          data = trackData config trackingType trackingData w1;
          w2 = w1\<lparr>payloads := payloads w1 @ [data]\<rparr>
      in case beaconUrl config trackingType data of
           Inl e \<Rightarrow> (Inl e, w2)
         | Inr src \<Rightarrow>
             (Inr (), w2\<lparr>images := images w2 @ [src],
                        body := map_option (\<lambda>children. children @ [src]) (body w2)\<rparr>))"

definition trackCartEvent :: "config \<Rightarrow> jsstring \<Rightarrow> jsval \<Rightarrow> world \<Rightarrow> (error + unit) \<times> world" where
  "trackCartEvent config cartEventType trackingData w =
     track config (js ''cartEvent'')
       (JObj (set_prop ''cartEventType'' (JStr cartEventType) (spread trackingData))) w"

subsection \<open>Lines 182-261: Tracker\<close>

definition defaultTrackerConfig :: config where
  "defaultTrackerConfig =
     \<lparr>user = JObj [(js ''email'', JUndefined), (js ''name'', JUndefined)],
      property = JUndefined, paramsToBeaconUrl = None, jetlore = None\<rparr>"

definition jetloreTrackTypes :: "jsstring list" where
  "jetloreTrackTypes =
     map js [''view'', ''addToCart'', ''removeFromCart'', ''purchase'', ''search'',
             ''browse_section'', ''browse_promo'', ''addToWishList'', ''removeFromWishList'',
             ''addToFavorites'', ''removeFromFavorites'', ''track'']"

text \<open>
  Lines 199-219: the initialisation of the jetlore client. The result of \<^verbatim>\<open>Tracker\<close>
  is a set of closures over the variable \<^verbatim>\<open>config\<close>; the model returns that variable
  and the world. An omitted argument takes the default. In the source the default is one
  object of the module, which \<^verbatim>\<open>setProperty\<close> (line 241) changes in place for every
  tracker that was created without an argument and has not yet called \<^verbatim>\<open>setUser\<close>;
  the model gives such a tracker the default as it is written at line 182 and does not
  follow that sharing, so it describes a tracker created without an argument only as
  long as no other such tracker has set a property.
\<close>

definition Tracker :: "config option \<Rightarrow> world \<Rightarrow> config \<times> world" where
  "Tracker arg w =
     (let config = (case arg of None \<Rightarrow> defaultTrackerConfig | Some c \<Rightarrow> c)
      in case jetlore config of
           None \<Rightarrow> (config, w)
         | Some j \<Rightarrow>
             (let trackingConfig = [(js ''cid'', access_token j), (js ''user_id'', user_id j),
                                   (js ''feed_id'', feed_id j)];
                  trackingConfig1 = (if \<not> truthy (div_value j)
                                     then set_prop ''div'' (div_value j) trackingConfig
                                     else trackingConfig);
                  trackingConfig2 = (if \<not> truthy (lang j)
                                     then set_prop ''lang'' (lang j) trackingConfig1
                                     else trackingConfig1)
              in (config, w\<lparr>JL_tracking := JL_tracking w @ [JObj trackingConfig2]\<rparr>)))"

text \<open>
  Lines 220-243: the trackers. Each takes the data, the current value of the variable
  \<^verbatim>\<open>config\<close> and the world, and gives the outcome, the new value of \<^verbatim>\<open>config\<close> and
  the new world.
\<close>

type_synonym tracker = "jsval \<Rightarrow> config \<Rightarrow> world \<Rightarrow> (error + unit) \<times> config \<times> world"

definition view :: tracker where
  "view data config w = (case track config (js ''view'') data w of (r, w') \<Rightarrow> (r, config, w'))"

definition addToCart :: tracker where
  "addToCart data config w =
     (let w1 = setCookie (js ''paypal-cr-cart'') (JSON_stringify data) sevenDays w
      in case trackCartEvent config (js ''addToCart'') data w1 of (r, w') \<Rightarrow> (r, config, w'))"

definition setCart :: tracker where
  "setCart data config w =
     (case trackCartEvent config (js ''setCart'') data w of (r, w') \<Rightarrow> (r, config, w'))"

definition removeFromCart :: tracker where
  "removeFromCart data config w =
     (case trackCartEvent config (js ''removeFromCart'') data w of (r, w') \<Rightarrow> (r, config, w'))"

definition purchase :: tracker where
  "purchase data config w =
     (case track config (js ''purchase'') data w of (r, w') \<Rightarrow> (r, config, w'))"

text \<open>
  \<^verbatim>\<open>((config && config.user) || {}).k\<close> of lines 234-235. The value that is read is
  truthy, so the read cannot throw.
\<close>

definition stored :: "config \<Rightarrow> string \<Rightarrow> jsval" where
  "stored config k =
     (case member (js_or (user config) (JObj [])) (js k) of Inl e \<Rightarrow> JUndefined | Inr v \<Rightarrow> v)"

definition setUser :: tracker where
  "setUser data config w =
     (case member data (js ''user'') of
        Inl e \<Rightarrow> (Inl e, config, w)
      | Inr u \<Rightarrow>
          (case member u (js ''email'') of
             Inl e \<Rightarrow> (Inl e, config, w)
           | Inr email \<Rightarrow>
               (case member u (js ''name'') of
                  Inl e \<Rightarrow> (Inl e, config, w)
                | Inr name \<Rightarrow>
                    (let config' = config\<lparr>user :=
                           JObj (set_prop ''name'' (js_or name (stored config ''name''))
                                (set_prop ''email'' (js_or email (stored config ''email''))
                                (spread (user config))))\<rparr>
                     in case track config' (js ''setUser'')
                               (JObj [(js ''oldUserId'', getUserIdCookie w)]) w of
                          (r, w') \<Rightarrow> (r, config', w')))))"

definition setProperty :: tracker where
  "setProperty data config w =
     (case member data (js ''property'') of
        Inl e \<Rightarrow> (Inl e, config, w)
      | Inr p \<Rightarrow>
          (case member p (js ''id'') of
             Inl e \<Rightarrow> (Inl e, config, w)
           | Inr i \<Rightarrow> (Inr (), config\<lparr>property := JObj [(js ''id'', i)]\<rparr>, w)))"

text \<open>The own properties of the object \<^verbatim>\<open>trackers\<close>.\<close>

definition trackers :: "jsstring \<Rightarrow> tracker option" where
  "trackers type =
     (if type = js ''view'' then Some view
      else if type = js ''addToCart'' then Some addToCart
      else if type = js ''setCart'' then Some setCart
      else if type = js ''removeFromCart'' then Some removeFromCart
      else if type = js ''purchase'' then Some purchase
      else if type = js ''setUser'' then Some setUser
      else if type = js ''setProperty'' then Some setProperty
      else None)"

text \<open>
  \<^verbatim>\<open>trackers\<close> is an object literal, so \<^verbatim>\<open>trackers[type]\<close> also finds what it inherits
  from \<^verbatim>\<open>Object.prototype\<close>. \<open>inherited type data\<close> is the outcome of
  \<^verbatim>\<open>trackers[type](data)\<close> for such a name, and \<open>None\<close> when there is no such
  property. \<^verbatim>\<open>__proto__\<close> is an object, not a function, and calling it throws;
  \<^verbatim>\<open>__defineGetter__\<close> and \<^verbatim>\<open>__defineSetter__\<close> throw for want of a function as second
  argument; \<^verbatim>\<open>hasOwnProperty\<close>, \<^verbatim>\<open>propertyIsEnumerable\<close>, \<^verbatim>\<open>__lookupGetter__\<close> and
  \<^verbatim>\<open>__lookupSetter__\<close> turn their argument into a property key, which throws when the
  conversion to a string does; the others return.
\<close>

fun no_string :: "jsval \<Rightarrow> bool" where
  "no_string (JObj kvs) = (js ''toString'' \<in> fst ` set kvs)"
| "no_string (JArr vs) = list_ex no_string vs"
| "no_string v = False"

definition inherited :: "jsstring \<Rightarrow> jsval \<Rightarrow> (error + unit) option" where
  "inherited type data =
     (if type \<in> set (map js [''constructor'', ''toString'', ''toLocaleString'', ''valueOf'',
                              ''isPrototypeOf'']) then Some (Inr ())
      else if type \<in> set (map js [''hasOwnProperty'', ''propertyIsEnumerable'',
                                   ''__lookupGetter__'', ''__lookupSetter__'']) then
        Some (if no_string data then Inl TypeError else Inr ())
      else if type \<in> set (map js [''__defineGetter__'', ''__defineSetter__'', ''__proto__'']) then
        Some (Inl TypeError)
      else None)"

text \<open>
  Lines 244-255: the generic dispatch. Line 249 calls \<^verbatim>\<open>getJetlorePayload(data)\<close> with
  one argument, so its parameter \<^verbatim>\<open>type\<close> is the data and its parameter \<^verbatim>\<open>payload\<close>
  is \<^verbatim>\<open>undefined\<close>.
\<close>

definition trackEvent :: "jsstring \<Rightarrow> tracker" where
  "trackEvent type data config w =
     (let isJetloreType = (case jetlore config of
                             None \<Rightarrow> False
                           | Some j \<Rightarrow> type \<in> set jetloreTrackTypes)
      in case (if jetlore config \<noteq> None \<and> isJetloreType \<and> truthy data then
                 (case getJetlorePayload data JUndefined of
                    Inl e \<Rightarrow> Inl e
                  | Inr jlData \<Rightarrow> Inr (w\<lparr>JL_tracker := JL_tracker w @ [(type, jlData)]\<rparr>))
               else Inr w) of
           Inl e \<Rightarrow> (Inl e, config, w)
         | Inr w1 \<Rightarrow>
             (case trackers type of
                Some tracker \<Rightarrow> tracker data config w1
              | None \<Rightarrow>
                  (case inherited type data of
                     Some r \<Rightarrow> (r, config, w1)
                   | None \<Rightarrow> (Inr (), config, w1))))"

text \<open>The value at \<^verbatim>\<open>data.user.id\<close> of a payload.\<close>

definition payload_user_id :: "jsval \<Rightarrow> error + jsval" where
  "payload_user_id data =
     (case member data (js ''user'') of Inl e \<Rightarrow> Inl e | Inr u \<Rightarrow> member u (js ''id''))"

subsection \<open>A page that keeps calling the tracker\<close>

text \<open>
  A sequence of calls of the generic dispatch \<^verbatim>\<open>tracker.track(type, data)\<close> on one
  tracker; the page goes on after a call that threw.
\<close>

fun run :: "(jsstring \<times> jsval) list \<Rightarrow> config \<Rightarrow> world \<Rightarrow> config \<times> world" where
  "run [] config w = (config, w)"
| "run (e # es) config w =
     (case trackEvent (fst e) (snd e) config w of (r, config', w') \<Rightarrow> run es config' w')"

text \<open>Every payload of the list has the value \<open>p\<close> in its \<^verbatim>\<open>property\<close> field.\<close>

definition carries :: "jsval \<Rightarrow> jsval list \<Rightarrow> bool" where
  "carries p ds = list_all (\<lambda>d. member d (js ''property'') = Inr p) ds"

subsection \<open>What a beacon's receiver reads\<close>

text \<open>
  The receiver of a beacon undoes \<open>encodeData\<close> on the \<^verbatim>\<open>data\<close> parameter of the URL:
  URL-decoding, base64-decoding and JSON-parsing.
\<close>

definition decodeData :: "jsstring \<Rightarrow> error + jsval" where
  "decodeData enc =
     (case decodeURIComponent enc of
        Inl e \<Rightarrow> Inl e
      | Inr b \<Rightarrow> (case atob b of Inl e \<Rightarrow> Inl e | Inr j \<Rightarrow> JSON_parse j))"

text \<open>
  The value that the JSON text of a value denotes: a property holding \<^verbatim>\<open>undefined\<close> is
  gone and an \<^verbatim>\<open>undefined\<close> array element is \<^verbatim>\<open>null\<close>.
\<close>

fun json_image :: "jsval \<Rightarrow> jsval" where
  "json_image JUndefined = JNull"
| "json_image (JArr vs) = JArr (map json_image vs)"
| "json_image (JObj kvs) =
     JObj (map (\<lambda>kv. (fst kv, json_image (snd kv))) (filter (\<lambda>kv. snd kv \<noteq> JUndefined) kvs))"
| "json_image v = v"

text \<open>
  An object has every key once. Values that come from JavaScript satisfy this; the
  lists of the model need it said.
\<close>

fun well_formed :: "jsval \<Rightarrow> bool" where
  "well_formed (JArr vs) = list_all well_formed vs"
| "well_formed (JObj kvs) = (distinct (map fst kvs) \<and> list_all (\<lambda>kv. well_formed (snd kv)) kvs)"
| "well_formed v = True"

text \<open>Every string and every key of the value has code units up to 0xFF only.\<close>

fun latin1 :: "jsval \<Rightarrow> bool" where
  "latin1 (JStr s) = list_all (\<lambda>c. c \<le> 0xFF) s"
| "latin1 (JArr vs) = list_all latin1 vs"
| "latin1 (JObj kvs) = list_all (\<lambda>kv. list_all (\<lambda>c. c \<le> 0xFF) (fst kv) \<and> latin1 (snd kv)) kvs"
| "latin1 v = True"

subsection \<open>Notions used in the proofs\<close>

text \<open>
  The characters of a base64 text that \<^verbatim>\<open>encodeURIComponent\<close> keeps, the escape of one
  character of a base64 text and what \<open>pct_items\<close> reads back from it; the first
  characters of a JSON value; the text of one member of a JSON object.
\<close>

definition alnum :: "16 word \<Rightarrow> bool" where
  "alnum c = ((0x41 \<le> c \<and> c \<le> 0x5A) \<or> (0x61 \<le> c \<and> c \<le> 0x7A) \<or> (0x30 \<le> c \<and> c \<le> 0x39))"

definition esc :: "16 word \<Rightarrow> jsstring" where
  "esc c = (if alnum c then [c] else pct [unat c])"

definition as_item :: "16 word \<Rightarrow> item" where
  "as_item c = (if alnum c then Raw c else Octet (unat c))"

definition opener :: "16 word \<Rightarrow> bool" where
  "opener c = (c \<in> set [0x6E, 0x74, 0x66, 0x22, 0x5B, 0x7B])"

definition member_text :: "jsstring \<times> jsval \<Rightarrow> jsstring" where
  "member_text kv = quoteJSON (fst kv) @ 0x3A # ser (snd kv)"

subsection \<open>Concrete inputs\<close>

definition example_world :: world where
  "example_world =
     \<lparr>cookies = Map.empty, generated = 0, fresh_id = (\<lambda>n. js ''id-1''), clientID = js ''abc'',
      merchantID = [js ''xyz''], body = Some [], images = [], payloads = [],
      JL_tracking = [], JL_tracker = []\<rparr>"

definition example_jetlore :: jetlore_config where
  "example_jetlore =
     \<lparr>user_id = JStr (js ''u1''), access_token = JStr (js ''tok''), feed_id = JStr (js ''f1''),
      div_value = JStr [], lang = JStr (js ''en'')\<rparr>"

definition example_config :: config where
  "example_config = defaultTrackerConfig\<lparr>jetlore := Some example_jetlore\<rparr>"

definition example_override :: "jsstring \<Rightarrow> jsval \<Rightarrow> jsstring" where
  "example_override trackingType data = js ''https://example.test/'' @ trackingType"

definition example_cart :: jsval where
  "example_cart =
     JObj [(js ''cartId'', JStr (js ''c1'')),
           (js ''items'', JArr [JObj [(js ''id'', JStr (js ''sku1''))]])]"

definition example_property :: jsval where
  "example_property = JObj [(js ''property'', JObj [(js ''id'', JStr (js ''p1''))])]"

definition example_user :: jsval where
  "example_user = JObj [(js ''user'', JObj [(js ''name'', JStr (js ''Ann''))])]"

definition example_known_user :: config where
  "example_known_user =
     defaultTrackerConfig\<lparr>user := JObj [(js ''email'', JStr (js ''ann@example.test''))]\<rparr>"

definition example_unicode_user :: jsval where
  "example_unicode_user = JObj [(js ''user'', JObj [(js ''name'', JStr [0x4E2D])])]"

definition example_unicode_cart :: jsval where
  "example_unicode_cart =
     JObj [(js ''cartId'', JStr (js ''c1'')),
           (js ''items'', JArr [JObj [(js ''id'', JStr (js ''sku1'')),
                                     (js ''title'', JStr [0x4E2D])]])]"

section \<open>Properties\<close>

subsection \<open>String literals\<close>

lemma u16_eq_iff [simp]: "u16 a = u16 b \<longleftrightarrow> a = b"
proof
  assume "u16 a = u16 b"
  then have "unat (u16 a) = unat (u16 b)" by simp
  moreover have "unat (u16 c) = of_char c" for c
  proof -
    have "(of_char c :: nat) mod 256 < 256" by (rule mod_less_divisor) simp
    then have "(of_char c :: nat) < 256" by (simp only: of_char_mod_256)
    then have "(of_char c :: nat) < 65536" by (rule less_trans) simp
    then show ?thesis by (simp add: u16_def unat_of_nat)
  qed
  ultimately show "a = b" by simp
qed simp

lemma js_eq_iff [simp]: "js a = js b \<longleftrightarrow> a = b"
  by (simp add: js_def inj_map_eq_map inj_on_def)

lemma js_Nil [simp]: "js s = [] \<longleftrightarrow> s = []" "[] = js s \<longleftrightarrow> s = []"
  by (auto simp: js_def)

subsection \<open>Fields of the merged payload\<close>

lemma map_of_set_prop [simp]:
  "map_of (set_prop k v kvs) (js k') = (if k' = k then Some v else map_of kvs (js k'))"
  by (simp add: set_prop_def update_conv')

lemma trackData_property: "member (trackData c tt td w) (js ''property'') = Inr (property c)"
  by (simp add: trackData_def Let_def)

lemma trackData_trackingType: "member (trackData c tt td w) (js ''trackingType'') = Inr (JStr tt)"
  by (simp add: trackData_def Let_def)

lemma trackData_user_id: "payload_user_id (trackData c tt td w) = Inr (getUserIdCookie w)"
  by (simp add: trackData_def Let_def payload_user_id_def)

lemma trackData_field:
  "k \<notin> set [''user'', ''property'', ''trackingType'', ''clientId'', ''merchantId''] \<Longrightarrow>
   member (trackData c tt td w) (js k) = member (JObj (spread td)) (js k)"
  by (simp add: trackData_def Let_def)

subsection \<open>What a call of track leaves alone\<close>

lemmas identity_defs = ensureIdentity_def setRandomUserIdCookie_def generateId_def setCookie_def

lemma ensureIdentity_frame [simp]:
  "JL_tracker (ensureIdentity w) = JL_tracker w"
  "JL_tracking (ensureIdentity w) = JL_tracking w"
  "images (ensureIdentity w) = images w"
  "body (ensureIdentity w) = body w"
  "payloads (ensureIdentity w) = payloads w"
  "clientID (ensureIdentity w) = clientID w"
  "merchantID (ensureIdentity w) = merchantID w"
  "fresh_id (ensureIdentity w) = fresh_id w"
  by (simp_all add: identity_defs)

lemma ensureIdentity_other_cookie:
  "name \<noteq> js ''paypal-user-id'' \<Longrightarrow> cookies (ensureIdentity w) name = cookies w name"
  by (simp add: identity_defs)

lemma ensureIdentity_present:
  "truthy (getUserIdCookie w) \<Longrightarrow> ensureIdentity w = w"
  by (simp add: ensureIdentity_def)

lemma getUserIdCookie_truthy:
  "truthy (getUserIdCookie w) \<longleftrightarrow> truthy (getCookie (js ''paypal-user-id'') w)"
  by (simp add: getUserIdCookie_def js_or_def)

lemma ensureIdentity_absent:
  assumes "\<not> truthy (getUserIdCookie w)"
  shows "generated (ensureIdentity w) = Suc (generated w)"
    and "cookies (ensureIdentity w) (js ''paypal-user-id'') =
           Some (JStr (fresh_id w (generated w)), 30 * 24 * 60 * 60 * 1000)"
    and "fresh_id w (generated w) \<noteq> [] \<Longrightarrow>
           getUserIdCookie (ensureIdentity w) = JStr (fresh_id w (generated w))"
  using assms
  by (simp_all add: identity_defs ONE_MONTH_IN_MILLISECONDS_def getUserIdCookie_def getCookie_def js_or_def)


lemma track_fst:
  "fst (track c tt td w) =
     map_sum id (\<lambda>src. ()) (beaconUrl c tt (trackData c tt td (ensureIdentity w)))"
  by (simp add: track_def Let_def split: sum.splits)

lemma track_JL [simp]:
  "JL_tracker (snd (track c tt td w)) = JL_tracker w"
  "JL_tracking (snd (track c tt td w)) = JL_tracking w"
  by (simp_all add: track_def Let_def split: sum.splits)

lemma track_payloads:
  "payloads (snd (track c tt td w)) = payloads w @ [trackData c tt td (ensureIdentity w)]"
  by (simp add: track_def Let_def split: sum.splits)

lemma track_identity [simp]:
  "cookies (snd (track c tt td w)) = cookies (ensureIdentity w)"
  "generated (snd (track c tt td w)) = generated (ensureIdentity w)"
  "fresh_id (snd (track c tt td w)) = fresh_id w"
  by (simp_all add: track_def Let_def split: sum.splits)

lemma track_images:
  "images (snd (track c tt td w)) =
     images w @ (case beaconUrl c tt (trackData c tt td (ensureIdentity w)) of
                   Inl e \<Rightarrow> [] | Inr src \<Rightarrow> [src])"
  by (simp add: track_def Let_def split: sum.splits)

lemma track_JL_E:
  "track c tt td w = (r, w') \<Longrightarrow> JL_tracker w' = JL_tracker w \<and> JL_tracking w' = JL_tracking w"
  by (metis track_JL snd_conv)

subsection \<open>The trackers in terms of track\<close>

lemma view_eq:
  "view data c w = (fst (track c (js ''view'') data w), c, snd (track c (js ''view'') data w))"
  by (simp add: view_def split: prod.splits)

lemma purchase_eq:
  "purchase data c w =
     (fst (track c (js ''purchase'') data w), c, snd (track c (js ''purchase'') data w))"
  by (simp add: purchase_def split: prod.splits)

lemma setCart_eq:
  "setCart data c w =
     (fst (trackCartEvent c (js ''setCart'') data w), c,
      snd (trackCartEvent c (js ''setCart'') data w))"
  by (simp add: setCart_def split: prod.splits)

lemma removeFromCart_eq:
  "removeFromCart data c w =
     (fst (trackCartEvent c (js ''removeFromCart'') data w), c,
      snd (trackCartEvent c (js ''removeFromCart'') data w))"
  by (simp add: removeFromCart_def split: prod.splits)

lemma addToCart_eq:
  "addToCart data c w =
     (fst (trackCartEvent c (js ''addToCart'') data
             (setCookie (js ''paypal-cr-cart'') (JSON_stringify data) sevenDays w)), c,
      snd (trackCartEvent c (js ''addToCart'') data
             (setCookie (js ''paypal-cr-cart'') (JSON_stringify data) sevenDays w)))"
  by (simp add: addToCart_def Let_def split: prod.splits)

lemma trackers_cases:
  assumes "trackers type = Some h"
  obtains "h = view" | "h = addToCart" | "h = setCart" | "h = removeFromCart"
    | "h = purchase" | "h = setUser" | "h = setProperty"
  using assms by (auto simp: trackers_def split: if_splits)

lemma setProperty_frame [simp]: "snd (snd (setProperty data c w)) = w"
  by (simp add: setProperty_def split: sum.splits)

lemma setProperty_jetlore [simp]: "jetlore (fst (snd (setProperty data c w))) = jetlore c"
  by (simp add: setProperty_def split: sum.splits)

lemma setUser_JL [simp]:
  "JL_tracker (snd (snd (setUser data c w))) = JL_tracker w"
  "JL_tracking (snd (snd (setUser data c w))) = JL_tracking w"
  "jetlore (fst (snd (setUser data c w))) = jetlore c"
  by (auto simp: setUser_def Let_def split: sum.splits prod.splits dest!: track_JL_E)

lemma tracker_JL:
  assumes "trackers type = Some h"
  shows "JL_tracker (snd (snd (h data c w))) = JL_tracker w"
    and "JL_tracking (snd (snd (h data c w))) = JL_tracking w"
    and "jetlore (fst (snd (h data c w))) = jetlore c"
  using assms
  by (elim trackers_cases;
      simp add: view_eq purchase_eq setCart_eq removeFromCart_eq addToCart_eq trackCartEvent_def
        setCookie_def)+

subsection \<open>The jetlore client\<close>

lemma trackEvent_no_jetlore:
  assumes "jetlore c = None"
  shows "JL_tracker (snd (snd (trackEvent type data c w))) = JL_tracker w"
    and "JL_tracking (snd (snd (trackEvent type data c w))) = JL_tracking w"
    and "jetlore (fst (snd (trackEvent type data c w))) = None"
  using assms
  by (auto simp: trackEvent_def tracker_JL split: option.splits)

lemma run_no_jetlore:
  "jetlore c = None \<Longrightarrow>
     JL_tracker (snd (run es c w)) = JL_tracker w \<and> JL_tracking (snd (run es c w)) = JL_tracking w"
proof (induction es arbitrary: c w)
  case Nil
  then show ?case by simp
next
  case (Cons e es)
  obtain r c' w' where step: "trackEvent (fst e) (snd e) c w = (r, c', w')"
    by (cases "trackEvent (fst e) (snd e) c w") auto
  with Cons.prems trackEvent_no_jetlore [of c "fst e" "snd e" w]
  have "jetlore c' = None" "JL_tracker w' = JL_tracker w" "JL_tracking w' = JL_tracking w"
    by simp_all
  with Cons.IH [of c' w'] step show ?case by simp
qed

text \<open>
  C6. Without jetlore credentials in the configuration the jetlore client is never
  called: not when the tracker is created, not by a call of the generic dispatch with
  any type and any data (whether it returns or throws), and not by any sequence of
  such calls.
\<close>

theorem no_credentials_no_forwarding:
  assumes "jetlore config = None"
  shows "Tracker (Some config) w = (config, w)
     \<and> JL_tracker (snd (snd (trackEvent type data config w))) = JL_tracker w
     \<and> JL_tracking (snd (snd (trackEvent type data config w))) = JL_tracking w
     \<and> JL_tracker (snd (run es config w)) = JL_tracker w
     \<and> JL_tracking (snd (run es config w)) = JL_tracking w"
  using assms trackEvent_no_jetlore [OF assms] run_no_jetlore [OF assms]
  by (simp add: Tracker_def)

theorem no_credentials_no_forwarding_witness:
  "jetlore defaultTrackerConfig = None
   \<and> JL_tracker (snd (snd (trackEvent (js ''purchase'') (JObj [(js ''deal_id'', JStr (js ''d1''))])
        defaultTrackerConfig example_world))) = []
   \<and> JL_tracker (snd (run [(js ''view'', JObj []), (js ''search'', JObj [])]
        defaultTrackerConfig example_world)) = []"
  using no_credentials_no_forwarding [of defaultTrackerConfig example_world "js ''purchase''"
      "JObj [(js ''deal_id'', JStr (js ''d1''))]" "[(js ''view'', JObj []), (js ''search'', JObj [])]"]
  by (simp add: defaultTrackerConfig_def example_world_def)

text \<open>
  C3. With credentials configured, a listed type and data supplied, the claim wants
  the data reshaped into the fields of its type and the reshaped object forwarded.
  Line 249 passes the data where \<^verbatim>\<open>getJetlorePayload\<close> expects the type, so for a view
  event with a name and refinements the handler \<^verbatim>\<open>JL.tracker.view\<close> receives
  \<^verbatim>\<open>undefined\<close>.
\<close>

theorem jetlore_payload_is_undefined:
  "JL_tracker (snd (snd (trackEvent (js ''view'')
      (JObj [(js ''name'', JStr (js ''shoes'')), (js ''refinements'', JArr [])])
      example_config example_world))) = [(js ''view'', JUndefined)]"
  by (simp add: trackEvent_def example_config_def defaultTrackerConfig_def jetloreTrackTypes_def
      getJetlorePayload_def trackers_def view_eq example_world_def)

text \<open>
  C10, as the claim states it, fails for a \<^verbatim>\<open>div\<close> that the caller supplies as the
  empty string: the guard \<^verbatim>\<open>!div\<close> holds and the empty string is forwarded.
\<close>

theorem tracker_init_forwards_empty_div:
  "JL_tracking (snd (Tracker (Some example_config) example_world)) =
     [JObj [(js ''cid'', JStr (js ''tok'')), (js ''user_id'', JStr (js ''u1'')),
            (js ''feed_id'', JStr (js ''f1'')), (js ''div'', JStr [])]]"
  by (simp add: Tracker_def example_config_def example_jetlore_def defaultTrackerConfig_def
      set_prop_def example_world_def)

text \<open>
  C10, amended. With credentials configured, creating the tracker calls
  \<^verbatim>\<open>JL.tracking\<close> once with \<^verbatim>\<open>cid\<close>, \<^verbatim>\<open>user_id\<close> and \<^verbatim>\<open>feed_id\<close>, followed by
  \<^verbatim>\<open>div\<close> exactly when the given \<^verbatim>\<open>div\<close> is falsy (absent or the empty string) and by
  \<^verbatim>\<open>lang\<close> exactly when the given \<^verbatim>\<open>lang\<close> is falsy, each with the falsy value it
  has: a non-empty \<^verbatim>\<open>div\<close> or \<^verbatim>\<open>lang\<close> is never forwarded, an absent one is
  forwarded as a field holding \<^verbatim>\<open>undefined\<close>.
\<close>

theorem tracker_init_config:
  assumes "jetlore config = Some j"
  shows "Tracker (Some config) w =
     (config, w\<lparr>JL_tracking := JL_tracking w @
        [JObj ([(js ''cid'', access_token j), (js ''user_id'', user_id j),
                (js ''feed_id'', feed_id j)]
               @ (if truthy (div_value j) then [] else [(js ''div'', div_value j)])
               @ (if truthy (lang j) then [] else [(js ''lang'', lang j)]))]\<rparr>)"
  using assms by (simp add: Tracker_def set_prop_def Let_def)

theorem tracker_init_config_witness:
  "jetlore (defaultTrackerConfig\<lparr>jetlore := Some (example_jetlore\<lparr>div_value := JStr (js ''main''),
       lang := JUndefined\<rparr>)\<rparr>) = Some (example_jetlore\<lparr>div_value := JStr (js ''main''), lang := JUndefined\<rparr>)
   \<and> JL_tracking (snd (Tracker (Some (defaultTrackerConfig\<lparr>jetlore :=
        Some (example_jetlore\<lparr>div_value := JStr (js ''main''), lang := JUndefined\<rparr>)\<rparr>)) example_world)) =
      [JObj [(js ''cid'', JStr (js ''tok'')), (js ''user_id'', JStr (js ''u1'')),
             (js ''feed_id'', JStr (js ''f1'')), (js ''lang'', JUndefined)]]"
  using tracker_init_config [of "defaultTrackerConfig\<lparr>jetlore :=
        Some (example_jetlore\<lparr>div_value := JStr (js ''main''), lang := JUndefined\<rparr>)\<rparr>"
      "example_jetlore\<lparr>div_value := JStr (js ''main''), lang := JUndefined\<rparr>" example_world]
  by (simp add: example_jetlore_def example_world_def)

subsection \<open>The beacon\<close>

text \<open>
  C5. With an override configured, every call of \<^verbatim>\<open>track\<close> returns normally and sets
  the image source to what the override answers for the tracking type and the merged
  payload, whatever that string is; the template plays no part.
\<close>

theorem override_used_verbatim:
  assumes "paramsToBeaconUrl config = Some f"
  shows "fst (track config trackingType trackingData w) = Inr ()
     \<and> images (snd (track config trackingType trackingData w)) =
         images w @ [f trackingType (trackData config trackingType trackingData (ensureIdentity w))]
     \<and> body (snd (track config trackingType trackingData w)) =
         map_option (\<lambda>children. children @
            [f trackingType (trackData config trackingType trackingData (ensureIdentity w))]) (body w)"
  using assms by (simp add: track_def beaconUrl_def Let_def)

theorem override_used_verbatim_witness:
  "paramsToBeaconUrl (defaultTrackerConfig\<lparr>paramsToBeaconUrl := Some example_override\<rparr>) =
     Some example_override
   \<and> images (snd (track (defaultTrackerConfig\<lparr>paramsToBeaconUrl := Some example_override\<rparr>)
        (js ''view'') (JObj [(js ''page'', JStr (js ''/''))]) example_world)) =
      [js ''https://example.test/view'']"
  using override_used_verbatim [of "defaultTrackerConfig\<lparr>paramsToBeaconUrl := Some example_override\<rparr>"
      example_override "js ''view''" "JObj [(js ''page'', JStr (js ''/''))]" example_world]
  by (simp add: defaultTrackerConfig_def example_world_def example_override_def js_def)

subsection \<open>The generic dispatch\<close>

text \<open>
  C9. The claim wants every type that is neither listed for jetlore nor the name of a
  tracker to be skipped without an error. \<^verbatim>\<open>trackers[type]\<close> also finds inherited
  properties: for the type \<^verbatim>\<open>__proto__\<close> it is \<^verbatim>\<open>Object.prototype\<close>, which is truthy
  and not a function, and the call at line 253 throws a TypeError.
\<close>

theorem dispatch_proto_throws:
  "fst (trackEvent (js ''__proto__'') (JObj []) defaultTrackerConfig example_world) = Inl TypeError"
  by (simp add: trackEvent_def defaultTrackerConfig_def trackers_def inherited_def)

subsection \<open>The trackers that change the configuration\<close>

lemma setCookie_frame [simp]:
  "payloads (setCookie n v t w) = payloads w"
  "images (setCookie n v t w) = images w"
  "generated (setCookie n v t w) = generated w"
  "fresh_id (setCookie n v t w) = fresh_id w"
  "cookies (setCookie n v t w) = (cookies w)(n \<mapsto> (v, t))"
  by (simp_all add: setCookie_def)

lemma getUserIdCookie_setCookie [simp]:
  "n \<noteq> js ''paypal-user-id'' \<Longrightarrow> getUserIdCookie (setCookie n v t w) = getUserIdCookie w"
  by (simp add: getUserIdCookie_def getCookie_def)

lemma setUser_cases:
  obtains (error) e where "setUser data c w = (Inl e, c, w)"
  | (ok) u email name where
      "member data (js ''user'') = Inr u" "member u (js ''email'') = Inr email"
      "member u (js ''name'') = Inr name"
proof (cases "member data (js ''user'')")
  case (Inl e)
  then show thesis using error [of e] by (simp add: setUser_def)
next
  case u: (Inr u)
  show thesis
  proof (cases "member u (js ''email'')")
    case (Inl e)
    with u show thesis using error [of e] by (simp add: setUser_def)
  next
    case email: (Inr email)
    show thesis
    proof (cases "member u (js ''name'')")
      case (Inl e)
      with u email show thesis using error [of e] by (simp add: setUser_def)
    next
      case (Inr name)
      with u email show thesis using ok by simp
    qed
  qed
qed

lemma setUser_eq:
  assumes "member data (js ''user'') = Inr u" "member u (js ''email'') = Inr email"
      "member u (js ''name'') = Inr name"
  shows "setUser data c w =
     (fst (track (c\<lparr>user := JObj (set_prop ''name'' (js_or name (stored c ''name''))
                                  (set_prop ''email'' (js_or email (stored c ''email''))
                                  (spread (user c))))\<rparr>)
            (js ''setUser'') (JObj [(js ''oldUserId'', getUserIdCookie w)]) w),
      c\<lparr>user := JObj (set_prop ''name'' (js_or name (stored c ''name''))
                      (set_prop ''email'' (js_or email (stored c ''email''))
                      (spread (user c))))\<rparr>,
      snd (track (c\<lparr>user := JObj (set_prop ''name'' (js_or name (stored c ''name''))
                                  (set_prop ''email'' (js_or email (stored c ''email''))
                                  (spread (user c))))\<rparr>)
            (js ''setUser'') (JObj [(js ''oldUserId'', getUserIdCookie w)]) w))"
  using assms by (simp add: setUser_def Let_def split: prod.splits)

lemma handler_payloads:
  assumes "trackers type = Some h" "type \<noteq> js ''setProperty''"
  shows "\<exists>ps. payloads (snd (snd (h data c w))) = payloads w @ ps \<and> carries (property c) ps
           \<and> property (fst (snd (h data c w))) = property c"
proof -
  consider "h = view" | "h = addToCart" | "h = setCart" | "h = removeFromCart"
    | "h = purchase" | "h = setUser"
    using assms by (auto simp: trackers_def split: if_splits)
  then show ?thesis
  proof cases
    case 6
    show ?thesis
    proof (cases rule: setUser_cases [of data c w])
      case (error e)
      with 6 show ?thesis by (simp add: carries_def)
    next
      case (ok u email name)
      with 6 show ?thesis
        by (simp add: setUser_eq track_payloads carries_def trackData_property)
    qed
  qed (simp_all add: view_eq purchase_eq setCart_eq removeFromCart_eq addToCart_eq
         trackCartEvent_def track_payloads carries_def trackData_property)
qed

lemma trackEvent_payloads:
  assumes "type \<noteq> js ''setProperty''"
  shows "\<exists>ps. payloads (snd (snd (trackEvent type data c w))) = payloads w @ ps
           \<and> carries (property c) ps
           \<and> property (fst (snd (trackEvent type data c w))) = property c"
proof (cases "trackers type")
  case None
  then show ?thesis
    by (auto simp: trackEvent_def carries_def split: option.splits sum.splits)
next
  case (Some h)
  have *: "\<exists>ps. payloads (snd (snd (h data c w'))) = payloads w @ ps \<and> carries (property c) ps
           \<and> property (fst (snd (h data c w'))) = property c" if "payloads w' = payloads w" for w'
    using handler_payloads [OF Some assms, of data c w'] that by simp
  show ?thesis
    using Some * [of w] * [of "w\<lparr>JL_tracker := JL_tracker w @ [(type, x)]\<rparr>" for x]
    by (auto simp: trackEvent_def carries_def split: option.splits sum.splits)
qed

lemma run_payloads:
  assumes "js ''setProperty'' \<notin> fst ` set es"
  shows "\<exists>ps. payloads (snd (run es c w)) = payloads w @ ps \<and> carries (property c) ps"
  using assms
proof (induction es arbitrary: c w)
  case Nil
  then show ?case by (simp add: carries_def)
next
  case (Cons e es)
  obtain r c' w' where step: "trackEvent (fst e) (snd e) c w = (r, c', w')"
    by (cases "trackEvent (fst e) (snd e) c w") auto
  from Cons.prems have "fst e \<noteq> js ''setProperty''" by auto
  from trackEvent_payloads [OF this, of "snd e" c w] step
  obtain ps where ps: "payloads w' = payloads w @ ps" "carries (property c) ps"
    "property c' = property c" by auto
  from Cons.prems have "js ''setProperty'' \<notin> fst ` set es" by auto
  from Cons.IH [OF this, of c' w']
  obtain qs where qs: "payloads (snd (run es c' w')) = payloads w' @ qs" "carries (property c') qs"
    by auto
  from ps qs step show ?case by (auto simp: carries_def)
qed

text \<open>
  C7. A \<^verbatim>\<open>setProperty\<close> call whose data has a \<^verbatim>\<open>property\<close> object returns normally with
  the world as it was (no beacon, no payload, no cookie) and with a configuration that
  differs from the old one in its \<^verbatim>\<open>property\<close> only, now \<^verbatim>\<open>{ id: data.property.id }\<close>.
  Every payload built from that configuration carries the new property, and so does
  every payload built by any later sequence of dispatch calls that has no further
  \<^verbatim>\<open>setProperty\<close>.
\<close>

theorem setProperty_changes_property_only:
  assumes "member data (js ''property'') = Inr p" and "member p (js ''id'') = Inr i"
    and "js ''setProperty'' \<notin> fst ` set es"
  shows "setProperty data config w = (Inr (), config\<lparr>property := JObj [(js ''id'', i)]\<rparr>, w)
     \<and> member (trackData (config\<lparr>property := JObj [(js ''id'', i)]\<rparr>) trackingType trackingData w')
          (js ''property'') = Inr (JObj [(js ''id'', i)])
     \<and> carries (JObj [(js ''id'', i)])
          (drop (length (payloads w))
             (payloads (snd (run es (config\<lparr>property := JObj [(js ''id'', i)]\<rparr>) w))))"
proof -
  from run_payloads [OF assms(3), of "config\<lparr>property := JObj [(js ''id'', i)]\<rparr>" w]
  obtain ps where "payloads (snd (run es (config\<lparr>property := JObj [(js ''id'', i)]\<rparr>) w)) = payloads w @ ps"
    "carries (JObj [(js ''id'', i)]) ps" by auto
  with assms(1,2) show ?thesis
    by (simp add: setProperty_def trackData_property)
qed

theorem setProperty_changes_property_only_witness:
  "member example_property (js ''property'') = Inr (JObj [(js ''id'', JStr (js ''p1''))])
   \<and> member (JObj [(js ''id'', JStr (js ''p1''))]) (js ''id'') = Inr (JStr (js ''p1''))
   \<and> js ''setProperty'' \<notin> fst ` set [(js ''view'', JObj []), (js ''setUser'', example_user)]
   \<and> setProperty example_property defaultTrackerConfig example_world =
       (Inr (), defaultTrackerConfig\<lparr>property := JObj [(js ''id'', JStr (js ''p1''))]\<rparr>, example_world)
   \<and> carries (JObj [(js ''id'', JStr (js ''p1''))])
        (drop (length (payloads example_world))
           (payloads (snd (run [(js ''view'', JObj []), (js ''setUser'', example_user)]
              (defaultTrackerConfig\<lparr>property := JObj [(js ''id'', JStr (js ''p1''))]\<rparr>) example_world))))"
proof -
  have h1: "member example_property (js ''property'') = Inr (JObj [(js ''id'', JStr (js ''p1''))])"
    by (simp add: example_property_def)
  have h2: "member (JObj [(js ''id'', JStr (js ''p1''))]) (js ''id'') = Inr (JStr (js ''p1''))"
    by simp
  have h3: "js ''setProperty'' \<notin> fst ` set [(js ''view'', JObj []), (js ''setUser'', example_user)]"
    by simp
  from setProperty_changes_property_only [OF h1 h2 h3, of defaultTrackerConfig example_world]
    h1 h2 h3
  show ?thesis by blast
qed

subsection \<open>The cart snapshot\<close>

text \<open>
  Every \<^verbatim>\<open>addToCart\<close> call leaves the cookie \<^verbatim>\<open>paypal-cr-cart\<close> holding
  \<^verbatim>\<open>JSON.stringify(data)\<close> with a time-to-live of seven days in milliseconds, whatever
  the cookie held before, keeps the configuration, and hands exactly one payload to
  \<^verbatim>\<open>track\<close>, of tracking type \<^verbatim>\<open>cartEvent\<close> and with the discriminator
  \<^verbatim>\<open>cartEventType: 'addToCart'\<close>. Whether a beacon follows is decided in \<^verbatim>\<open>track\<close>.
\<close>

lemma addToCart_snapshot:
  "cookies (snd (snd (addToCart data config w))) (js ''paypal-cr-cart'') =
      Some (JSON_stringify data, 7 * 24 * 60 * 60 * 1000)
   \<and> (data \<noteq> JUndefined \<longrightarrow> JSON_stringify data = JStr (ser data))
   \<and> fst (snd (addToCart data config w)) = config
   \<and> length (payloads (snd (snd (addToCart data config w)))) = Suc (length (payloads w))
   \<and> member (last (payloads (snd (snd (addToCart data config w))))) (js ''trackingType'') =
       Inr (JStr (js ''cartEvent''))
   \<and> member (last (payloads (snd (snd (addToCart data config w))))) (js ''cartEventType'') =
       Inr (JStr (js ''addToCart''))
   \<and> length (images (snd (snd (addToCart data config w)))) =
       length (images w) + (if fst (addToCart data config w) = Inr () then 1 else 0)"
  by (simp add: addToCart_eq trackCartEvent_def track_payloads trackData_trackingType
      trackData_field ensureIdentity_other_cookie sevenDays_def JSON_stringify_def
      track_images track_fst split: sum.splits)

lemma addToCart_snapshot_example:
  "cookies (snd (snd (addToCart example_cart defaultTrackerConfig example_world))) (js ''paypal-cr-cart'') =
      Some (JStr (ser example_cart), 604800000)
   \<and> member (last (payloads (snd (snd (addToCart example_cart defaultTrackerConfig example_world)))))
        (js ''cartEventType'') = Inr (JStr (js ''addToCart''))"
  using addToCart_snapshot [of example_cart defaultTrackerConfig example_world]
  by (simp add: example_cart_def)

subsection \<open>The user\<close>

text \<open>
  For \<^verbatim>\<open>setUser\<close> data whose \<^verbatim>\<open>user\<close> can be read, the new configuration holds
  the given email when it is truthy and the previously stored email otherwise, and the
  same for the name. The call hands exactly one payload to \<^verbatim>\<open>track\<close>, of tracking
  type \<^verbatim>\<open>setUser\<close>, whose \<^verbatim>\<open>oldUserId\<close> is the identity cookie as it was read before
  that call of \<^verbatim>\<open>track\<close>. Whether a beacon follows is decided in \<^verbatim>\<open>track\<close>.
\<close>

lemma setUser_merges:
  assumes "member data (js ''user'') = Inr u" and "member u (js ''email'') = Inr email"
    and "member u (js ''name'') = Inr name"
  shows "member (user (fst (snd (setUser data config w)))) (js ''email'') =
       Inr (if truthy email then email else stored config ''email'')
   \<and> member (user (fst (snd (setUser data config w)))) (js ''name'') =
       Inr (if truthy name then name else stored config ''name'')
   \<and> length (payloads (snd (snd (setUser data config w)))) = Suc (length (payloads w))
   \<and> member (last (payloads (snd (snd (setUser data config w))))) (js ''trackingType'') =
       Inr (JStr (js ''setUser''))
   \<and> member (last (payloads (snd (snd (setUser data config w))))) (js ''oldUserId'') =
       Inr (getUserIdCookie w)
   \<and> length (images (snd (snd (setUser data config w)))) =
       length (images w) + (if fst (setUser data config w) = Inr () then 1 else 0)"
  by (simp add: setUser_eq [OF assms] track_payloads trackData_trackingType trackData_field
      js_or_def track_images track_fst split: sum.splits)

lemma setUser_merges_example:
  "member example_user (js ''user'') = Inr (JObj [(js ''name'', JStr (js ''Ann''))])
   \<and> member (JObj [(js ''name'', JStr (js ''Ann''))]) (js ''email'') = Inr JUndefined
   \<and> member (JObj [(js ''name'', JStr (js ''Ann''))]) (js ''name'') = Inr (JStr (js ''Ann''))
   \<and> member (user (fst (snd (setUser example_user example_known_user example_world)))) (js ''email'') =
       Inr (JStr (js ''ann@example.test''))
   \<and> member (user (fst (snd (setUser example_user example_known_user example_world)))) (js ''name'') =
       Inr (JStr (js ''Ann''))
   \<and> member (last (payloads (snd (snd (setUser example_user example_known_user example_world)))))
        (js ''oldUserId'') = Inr JNull"
proof -
  have h1: "member example_user (js ''user'') = Inr (JObj [(js ''name'', JStr (js ''Ann''))])"
    by (simp add: example_user_def)
  have h2: "member (JObj [(js ''name'', JStr (js ''Ann''))]) (js ''email'') = Inr JUndefined"
    by simp
  have h3: "member (JObj [(js ''name'', JStr (js ''Ann''))]) (js ''name'') = Inr (JStr (js ''Ann''))"
    by simp
  have s: "stored example_known_user ''email'' = JStr (js ''ann@example.test'')"
    by (simp add: stored_def example_known_user_def js_or_def)
  have o: "getUserIdCookie example_world = JNull"
    by (simp add: getUserIdCookie_def getCookie_def example_world_def js_or_def)
  from setUser_merges [OF h1 h2 h3, of example_known_user example_world] h1 h2 h3 s o
  show ?thesis by simp
qed

subsection \<open>The identity cookie\<close>

lemma track_identity_absent:
  assumes "\<not> truthy (getUserIdCookie w)"
  shows "generated (snd (track c tt td w)) = Suc (generated w)
    \<and> cookies (snd (track c tt td w)) (js ''paypal-user-id'') =
        Some (JStr (fresh_id w (generated w)), 30 * 24 * 60 * 60 * 1000)
    \<and> length (payloads (snd (track c tt td w))) = Suc (length (payloads w))
    \<and> (fresh_id w (generated w) \<noteq> [] \<longrightarrow>
         payload_user_id (last (payloads (snd (track c tt td w)))) =
           Inr (JStr (fresh_id w (generated w)))
         \<and> getUserIdCookie (snd (track c tt td w)) = JStr (fresh_id w (generated w)))"
  using ensureIdentity_absent [OF assms]
  by (simp add: track_payloads trackData_user_id getUserIdCookie_def getCookie_def)

lemma track_identity_present:
  assumes "truthy (getUserIdCookie w)"
  shows "generated (snd (track c tt td w)) = generated w
    \<and> cookies (snd (track c tt td w)) = cookies w
    \<and> length (payloads (snd (track c tt td w))) = Suc (length (payloads w))
    \<and> payload_user_id (last (payloads (snd (track c tt td w)))) = Inr (getUserIdCookie w)
    \<and> getUserIdCookie (snd (track c tt td w)) = getUserIdCookie w"
  using ensureIdentity_present [OF assms]
  by (simp add: track_payloads trackData_user_id getUserIdCookie_def getCookie_def)

text \<open>
  C2. For the view, purchase and cart-event trackers: when the identity cookie is
  absent, \<^verbatim>\<open>generateId\<close> is called exactly once and its result is stored under
  \<^verbatim>\<open>paypal-user-id\<close> with a time-to-live of thirty days in milliseconds, and for an
  identifier that is not the empty string the payload's \<^verbatim>\<open>user.id\<close> is that identifier
  and the cookie is present afterwards; when the cookie is present, \<^verbatim>\<open>generateId\<close> is
  not called, the cookie stays as it is and the payload's \<^verbatim>\<open>user.id\<close> is its value.
\<close>

theorem identity_created_once:
  assumes "h \<in> {view, purchase, addToCart, setCart, removeFromCart}"
  shows "(\<not> truthy (getUserIdCookie w) \<longrightarrow>
            generated (snd (snd (h data config w))) = Suc (generated w)
          \<and> cookies (snd (snd (h data config w))) (js ''paypal-user-id'') =
              Some (JStr (fresh_id w (generated w)), 30 * 24 * 60 * 60 * 1000)
          \<and> (fresh_id w (generated w) \<noteq> [] \<longrightarrow>
               payload_user_id (last (payloads (snd (snd (h data config w))))) =
                 Inr (JStr (fresh_id w (generated w)))
               \<and> getUserIdCookie (snd (snd (h data config w))) = JStr (fresh_id w (generated w))))
     \<and> (truthy (getUserIdCookie w) \<longrightarrow>
            generated (snd (snd (h data config w))) = generated w
          \<and> cookies (snd (snd (h data config w))) (js ''paypal-user-id'') =
              cookies w (js ''paypal-user-id'')
          \<and> payload_user_id (last (payloads (snd (snd (h data config w))))) =
              Inr (getUserIdCookie w)
          \<and> getUserIdCookie (snd (snd (h data config w))) = getUserIdCookie w)"
proof -
  let ?w1 = "setCookie (js ''paypal-cr-cart'') (JSON_stringify data) sevenDays w"
  have a: "\<not> truthy (getUserIdCookie w) \<Longrightarrow> \<not> truthy (getUserIdCookie ?w1)" by simp
  have b: "truthy (getUserIdCookie w) \<Longrightarrow> truthy (getUserIdCookie ?w1)" by simp
  from assms consider "h = view" | "h = purchase" | "h = addToCart" | "h = setCart"
    | "h = removeFromCart" by auto
  then show ?thesis
  proof cases
    case 3
    show ?thesis
      using track_identity_absent [OF a] track_identity_present [OF b]
      by (simp add: 3 addToCart_eq trackCartEvent_def)
  qed (use track_identity_absent [of w] track_identity_present [of w] in
        \<open>simp_all add: view_eq purchase_eq setCart_eq removeFromCart_eq trackCartEvent_def\<close>)
qed


theorem identity_created_once_witness:
  "view \<in> {view, purchase, addToCart, setCart, removeFromCart}
   \<and> \<not> truthy (getUserIdCookie example_world)
   \<and> generated (snd (snd (view (JObj []) defaultTrackerConfig example_world))) = 1
   \<and> cookies (snd (snd (view (JObj []) defaultTrackerConfig example_world))) (js ''paypal-user-id'') =
       Some (JStr (js ''id-1''), 2592000000)
   \<and> payload_user_id (last (payloads (snd (snd (view (JObj []) defaultTrackerConfig example_world))))) =
       Inr (JStr (js ''id-1''))"
proof -
  have h: "view \<in> {view, purchase, addToCart, setCart, removeFromCart}" by simp
  have o: "\<not> truthy (getUserIdCookie example_world)"
    by (simp add: getUserIdCookie_def getCookie_def example_world_def js_or_def)
  have g: "generated example_world = 0" "fresh_id example_world 0 = js ''id-1''"
    by (simp_all add: example_world_def)
  from identity_created_once [OF h, of example_world "JObj []" defaultTrackerConfig] h o g
  show ?thesis by simp
qed


subsection \<open>btoa and atob\<close>

lemma unat_of_nat16: "m < 65536 \<Longrightarrow> unat (of_nat m :: 16 word) = m"
  by (simp add: unat_of_nat)

lemma unat_b64c:
  assumes "n < 64"
  shows "unat (b64c n) =
     (if n < 26 then 65 + n else if n < 52 then 71 + n else if n < 62 then n - 4
      else if n = 62 then 43 else 47)"
  using assms unfolding b64c_def
  by (auto simp del: of_nat_add of_nat_diff simp: unat_of_nat16)

lemma b64c_cases:
  assumes "n < 64"
  shows "alnum (b64c n) \<or> b64c n = 0x2B \<or> b64c n = 0x2F"
  using assms
  by (auto simp: alnum_def word_le_nat_alt word_unat_eq_iff unat_b64c)

lemma b64v_b64c: "n < 64 \<Longrightarrow> b64v (b64c n) = Some n"
  by (auto simp: b64v_def Let_def unat_b64c)

lemma b64c_not_pad: "n < 64 \<Longrightarrow> b64c n \<noteq> 0x3D"
  by (auto simp: word_unat_eq_iff unat_b64c)

lemma b64c_not_space: "n < 64 \<Longrightarrow> \<not> b64_space (b64c n)"
  by (auto simp: b64_space_def word_unat_eq_iff unat_b64c)

lemma sextets_bound: "list_all (\<lambda>b. b < 256) bs \<Longrightarrow> list_all (\<lambda>x. x < 64) (sextets bs)"
  by (induction bs rule: sextets.induct) auto

lemma sextet_arith:
  fixes a b c :: nat
  assumes "a < 256" "b < 256" "c < 256"
  shows "a div 4 * 4 + (a mod 4 * 16 + b div 16) div 16 = a"
    and "(a mod 4 * 16 + b div 16) mod 16 * 16 + (b mod 16 * 4 + c div 64) div 4 = b"
    and "(b mod 16 * 4 + c div 64) mod 4 * 64 + c mod 64 = c"
    and "(a mod 4 * 16 + b div 16) mod 16 * 16 + (b mod 16 * 4) div 4 = b"
    and "a div 4 * 4 + (a mod 4 * 16) div 16 = a"
proof -
  have b: "b div 16 < 16" and c: "c div 64 < 4" using assms by simp_all
  have 1: "(a mod 4 * 16 + b div 16) div 16 = a mod 4" using b by simp
  have 2: "(a mod 4 * 16 + b div 16) mod 16 = b div 16" using b by simp
  have 3: "(b mod 16 * 4 + c div 64) div 4 = b mod 16" using c by simp
  have 4: "(b mod 16 * 4 + c div 64) mod 4 = c div 64" using c by simp
  show "a div 4 * 4 + (a mod 4 * 16 + b div 16) div 16 = a" unfolding 1 by simp
  show "(a mod 4 * 16 + b div 16) mod 16 * 16 + (b mod 16 * 4 + c div 64) div 4 = b"
    unfolding 2 3 by simp
  show "(b mod 16 * 4 + c div 64) mod 4 * 64 + c mod 64 = c" unfolding 4 by simp
  show "(a mod 4 * 16 + b div 16) mod 16 * 16 + (b mod 16 * 4) div 4 = b" unfolding 2 by simp
  show "a div 4 * 4 + (a mod 4 * 16) div 16 = a" by simp
qed

lemma b64_decode_sextets: "list_all (\<lambda>b. b < 256) bs \<Longrightarrow> b64_decode (sextets bs) = bs"
proof (induction bs rule: sextets.induct)
  case 1
  show ?case by simp
next
  case (2 a)
  then have a: "a < 256" by simp
  show ?case
    by (simp only: sextets.simps b64_decode.simps sextet_arith(5) [OF a a a])
next
  case (3 a b)
  then have a: "a < 256" "b < 256" by simp_all
  show ?case
    by (simp only: sextets.simps b64_decode.simps sextet_arith(1,4) [OF a a(1)])
next
  case (4 a b c r)
  then have a: "a < 256" "b < 256" "c < 256" and r: "b64_decode (sextets r) = r" by simp_all
  show ?case
    by (simp only: sextets.simps b64_decode.simps append_Cons append_Nil
        sextet_arith(1-3) [OF a] r)
qed

lemma length_sextets_1: "length (sextets bs) mod 4 \<noteq> 1"
proof (induction bs rule: sextets.induct)
  case (4 a b c r)
  have l: "length (sextets (a # b # c # r)) = length (sextets r) + 4" by simp
  from 4 show ?case unfolding l by simp
qed simp_all

lemma pad_mod: "(3 - (n + 3) mod 3) mod 3 = (3 - n mod 3) mod (3::nat)"
  by simp

lemma length_sextets_2: "(length (sextets bs) + (3 - length bs mod 3) mod 3) mod 4 = 0"
proof (induction bs rule: sextets.induct)
  case (4 a b c r)
  have l: "length (sextets (a # b # c # r)) = length (sextets r) + 4" by simp
  have m: "length (a # b # c # r) = length r + 3" by simp
  have "(length (sextets r) + 4 + (3 - length r mod 3) mod 3) mod 4
        = (length (sextets r) + (3 - length r mod 3) mod 3 + 4) mod 4"
    by (simp add: ac_simps)
  also have "\<dots> = (length (sextets r) + (3 - length r mod 3) mod 3) mod 4"
    by (rule mod_add_self2)
  finally show ?case unfolding l m pad_mod using 4 by (simp only:)
qed simp_all


lemma strip_pad_replicate:
  assumes "xs = [] \<or> last xs \<noteq> 0x3D" "k \<le> 2"
  shows "strip_pad (xs @ replicate k 0x3D) = xs"
proof -
  from assms(2) consider "k = 0" | "k = 1" | "k = 2" by linarith
  then show ?thesis
  proof cases
    case 1
    with assms(1) show ?thesis by (auto simp: strip_pad_def)
  next
    case 2
    with assms(1) show ?thesis by (auto simp: strip_pad_def)
  next
    case 3
    then have "replicate k (0x3D :: 16 word) = [0x3D, 0x3D]" by (simp add: numeral_2_eq_2)
    with assms(1) show ?thesis by (auto simp: strip_pad_def butlast_append)
  qed
qed

lemma those_b64v: "list_all (\<lambda>x. x < 64) sx \<Longrightarrow> those (map b64v (map b64c sx)) = Some sx"
  by (induction sx) (simp_all add: b64v_b64c)

lemma pad_not_space: "\<not> b64_space 0x3D"
  by (simp add: b64_space_def)

lemma filter_b64_space:
  assumes "list_all (\<lambda>x. x < 64) sx"
  shows "filter (\<lambda>c. \<not> b64_space c) (map b64c sx @ replicate k 0x3D) =
           map b64c sx @ replicate k 0x3D"
proof -
  have "\<not> b64_space c" if "c \<in> set (map b64c sx @ replicate k 0x3D)" for c
    using that assms by (auto simp: list_all_iff b64c_not_space pad_not_space)
  then show ?thesis by (simp only: filter_id_conv) blast
qed

lemma atob_btoa:
  assumes "list_all (\<lambda>c. c \<le> 0xFF) s"
  shows "btoa s = Inr (b64_encode (map unat s))"
    and "atob (b64_encode (map unat s)) = Inr s"
proof -
  let ?bs = "map unat s"
  let ?sx = "sextets ?bs"
  let ?k = "(3 - length ?bs mod 3) mod 3"
  from assms show "btoa s = Inr (b64_encode (map unat s))" by (simp add: btoa_def)
  from assms have bs: "list_all (\<lambda>b. b < 256) ?bs"
    by (auto simp: list_all_iff word_le_nat_alt)
  then have sx: "list_all (\<lambda>x. x < 64) ?sx" by (rule sextets_bound)
  have last: "map b64c ?sx = [] \<or> last (map b64c ?sx) \<noteq> 0x3D"
  proof (cases "?sx = []")
    case False
    then have "last ?sx \<in> set ?sx" by simp
    with sx have "last ?sx < 64" by (simp add: list_all_iff)
    with False show ?thesis by (simp add: last_map b64c_not_pad)
  qed simp
  have k: "?k \<le> 2" by simp
  have len: "length (map b64c ?sx @ replicate ?k (0x3D :: 16 word)) mod 4 = 0"
    using length_sextets_2 [of ?bs] by simp
  have len1: "length (map b64c ?sx) mod 4 \<noteq> 1"
    using length_sextets_1 [of ?bs] by simp
  have decoded: "map of_nat (b64_decode ?sx) = s"
    by (simp add: b64_decode_sextets [OF bs] map_idI)
  show "atob (b64_encode (map unat s)) = Inr s"
    unfolding atob_def b64_encode_def Let_def filter_b64_space [OF sx]
    by (simp only: len if_True strip_pad_replicate [OF last k] len1 if_False
        those_b64v [OF sx] option.case decoded simp_thms)
qed

subsection \<open>encodeURIComponent and decodeURIComponent on base64 text\<close>

lemma alnum_facts:
  assumes "alnum c"
  shows "unreserved c" "c \<noteq> 0x25"
  using assms by (auto simp: alnum_def unreserved_def)

lemma special_facts:
  assumes "c = 0x2B \<or> c = 0x2F \<or> c = 0x3D"
  shows "\<not> alnum c" "\<not> unreserved c" "\<not> is_lead c" "\<not> is_trail c" "utf8 (unat c) = [unat c]"
    "pct_items (pct [unat c] @ r) =
       (case pct_items r of None \<Rightarrow> None | Some is \<Rightarrow> Some (Octet (unat c) # is))"
    "unat c < 0x80"
  using assms
  by (auto simp: alnum_def unreserved_def is_lead_def is_trail_def utf8_def pct_def HEXDIGIT_def
      hexval_def split: option.splits)

lemma encodeURIComponent_step:
  assumes "alnum c \<or> c = 0x2B \<or> c = 0x2F \<or> c = 0x3D"
  shows "encodeURIComponent (c # cs) =
     (case encodeURIComponent cs of Inl e \<Rightarrow> Inl e | Inr r \<Rightarrow> Inr (esc c @ r))"
proof (cases "alnum c")
  case True
  then show ?thesis by (simp add: esc_def alnum_facts split: sum.splits)
next
  case False
  with assms have "c = 0x2B \<or> c = 0x2F \<or> c = 0x3D" by simp
  from special_facts(1-5) [OF this] show ?thesis by (simp add: esc_def pct_def split: sum.splits)
qed

lemma encodeURIComponent_b64:
  assumes "list_all (\<lambda>c. alnum c \<or> c = 0x2B \<or> c = 0x2F \<or> c = 0x3D) t"
  shows "encodeURIComponent t = Inr (concat (map esc t))"
  using assms
  by (induction t) (simp_all add: encodeURIComponent_step del: encodeURIComponent.simps(2))

lemma pct_items_step:
  assumes "alnum c \<or> c = 0x2B \<or> c = 0x2F \<or> c = 0x3D"
  shows "pct_items (esc c @ r) =
     (case pct_items r of None \<Rightarrow> None | Some is \<Rightarrow> Some (as_item c # is))"
proof (cases "alnum c")
  case True
  then show ?thesis by (simp add: esc_def as_item_def alnum_facts split: option.splits)
next
  case False
  with assms have "c = 0x2B \<or> c = 0x2F \<or> c = 0x3D" by simp
  from special_facts(6) [OF this] False show ?thesis
    by (simp add: esc_def as_item_def split: option.splits)
qed

lemma pct_items_b64:
  assumes "list_all (\<lambda>c. alnum c \<or> c = 0x2B \<or> c = 0x2F \<or> c = 0x3D) t"
  shows "pct_items (concat (map esc t)) = Some (map as_item t)"
  using assms
  by (induction t) (simp_all add: pct_items_step)

lemma utf8_units_step:
  assumes "alnum c \<or> c = 0x2B \<or> c = 0x2F \<or> c = 0x3D"
  shows "utf8_units (as_item c # r) =
     (case utf8_units r of None \<Rightarrow> None | Some s \<Rightarrow> Some (c # s))"
proof (cases "alnum c")
  case True
  then show ?thesis by (simp add: as_item_def split: option.splits)
next
  case False
  with assms have "c = 0x2B \<or> c = 0x2F \<or> c = 0x3D" by simp
  from special_facts(7) [OF this] False show ?thesis
    by (simp add: as_item_def split: option.splits)
qed

lemma utf8_units_b64:
  assumes "list_all (\<lambda>c. alnum c \<or> c = 0x2B \<or> c = 0x2F \<or> c = 0x3D) t"
  shows "utf8_units (map as_item t) = Some t"
  using assms
  by (induction t) (simp_all add: utf8_units_step del: utf8_units.simps(2,3))

lemma decodeURIComponent_encodeURIComponent_b64:
  assumes "list_all (\<lambda>c. alnum c \<or> c = 0x2B \<or> c = 0x2F \<or> c = 0x3D) t"
  shows "encodeURIComponent t = Inr (concat (map esc t))"
    and "decodeURIComponent (concat (map esc t)) = Inr t"
  using assms
  by (simp_all add: encodeURIComponent_b64 decodeURIComponent_def pct_items_b64 utf8_units_b64)

lemma b64_encode_text:
  assumes "list_all (\<lambda>b. b < 256) bs"
  shows "list_all (\<lambda>c. alnum c \<or> c = 0x2B \<or> c = 0x2F \<or> c = 0x3D) (b64_encode bs)"
  using sextets_bound [OF assms] b64c_cases
  by (auto simp: b64_encode_def list_all_iff)

subsection \<open>JSON.stringify and JSON.parse\<close>

lemma hexval_hexdigit: "n < 16 \<Longrightarrow> hexval (hexdigit n) = Some n"
  unfolding hexval_def hexdigit_def Let_def
  by (auto simp del: of_nat_add simp: unat_of_nat16)

lemma hex_sum:
  fixes u :: nat
  shows "u div 4096 * 4096 + u div 256 mod 16 * 256 + u div 16 mod 16 * 16 + u mod 16 = u"
proof -
  have a: "u div 16 div 16 = u div 256" "u div 256 div 16 = u div 4096"
    by (simp_all add: div_mult2_eq [symmetric])
  have "u = u div 16 * 16 + u mod 16" by simp
  moreover have "u div 16 = u div 16 div 16 * 16 + u div 16 mod 16" by simp
  moreover have "u div 256 = u div 256 div 16 * 16 + u div 256 mod 16" by simp
  ultimately show ?thesis unfolding a by linarith
qed

lemma hex4val_hex4:
  "hex4val (hexdigit (unat c div 4096)) (hexdigit (unat c div 256 mod 16))
     (hexdigit (unat c div 16 mod 16)) (hexdigit (unat c mod 16)) = Some c"
proof -
  have "unat c < 65536" using unsigned_less [of c, where ?'a = nat] by simp
  then have "unat c div 4096 < 16" by simp
  then show ?thesis
    by (simp add: hex4val_def hexval_hexdigit hex_sum)
qed

lemma parse_chars_raw:
  "c \<noteq> 0x22 \<Longrightarrow> c \<noteq> 0x5C \<Longrightarrow> \<not> c < 0x20 \<Longrightarrow>
   parse_chars (c # r) = (case parse_chars r of None \<Rightarrow> None | Some (s, r') \<Rightarrow> Some (c # s, r'))"
  by simp

lemma parse_chars_escape:
  "e \<noteq> 0x75 \<Longrightarrow> unescape e = Some c \<Longrightarrow>
   parse_chars (0x5C # e # r) = (case parse_chars r of None \<Rightarrow> None | Some (s, r') \<Rightarrow> Some (c # s, r'))"
  by simp

lemma parse_chars_hex:
  "parse_chars (0x5C # 0x75 # hex4 c @ r) =
     (case parse_chars r of None \<Rightarrow> None | Some (s, r') \<Rightarrow> Some (c # s, r'))"
  by (simp add: hex4_def Let_def hex4val_hex4)

lemma parse_chars_quote1:
  "parse_chars (quote1 c @ r) =
     (case parse_chars r of None \<Rightarrow> None | Some (s, r') \<Rightarrow> Some (c # s, r'))"
proof -
  consider "c = 0x08" | "c = 0x09" | "c = 0x0A" | "c = 0x0C" | "c = 0x0D" | "c = 0x22" | "c = 0x5C"
    | "c \<notin> {0x08, 0x09, 0x0A, 0x0C, 0x0D, 0x22, 0x5C}" "c < 0x20 \<or> is_lead c \<or> is_trail c"
    | "c \<notin> {0x08, 0x09, 0x0A, 0x0C, 0x0D, 0x22, 0x5C}" "\<not> (c < 0x20 \<or> is_lead c \<or> is_trail c)"
    by blast
  then show ?thesis
  proof cases
    case 8
    then have "quote1 c = [0x5C, 0x75] @ hex4 c" by (simp add: quote1_def)
    then show ?thesis using parse_chars_hex [of c r] by simp
  next
    case 9
    then have "quote1 c = [c]" by (simp add: quote1_def)
    with 9 show ?thesis using parse_chars_raw [of c r] by simp
  qed (auto simp: quote1_def parse_chars_escape unescape_def simp del: parse_chars.simps
        split: option.splits)
qed

lemma parse_chars_quote_units:
  "parse_chars (quote_units s @ 0x22 # rest) = Some (s, rest)"
proof (induction s rule: quote_units.induct)
  case 1
  show ?case by simp
next
  case (2 c)
  show ?case by (simp add: parse_chars_quote1 del: parse_chars.simps) simp
next
  case (3 c d cs)
  show ?case
  proof (cases "is_lead c \<and> is_trail d")
    case True
    then have c: "c \<noteq> 0x22" "c \<noteq> 0x5C" "\<not> c < 0x20" and d: "d \<noteq> 0x22" "d \<noteq> 0x5C" "\<not> d < 0x20"
      by (auto simp: is_lead_def is_trail_def word_le_nat_alt word_less_nat_alt)
    from True have q: "quote_units (c # d # cs) = c # d # quote_units cs" by simp
    from "3.IH"(1) [OF True] show ?thesis
      unfolding q by (simp add: parse_chars_raw [OF c] parse_chars_raw [OF d] del: parse_chars.simps)
  next
    case False
    then have q: "quote_units (c # d # cs) = quote1 c @ quote_units (d # cs)" by auto
    from "3.IH"(2) [OF False] show ?thesis
      unfolding q by (simp add: parse_chars_quote1 del: parse_chars.simps quote_units.simps)
  qed
qed

lemma js_literals:
  "js ''null'' = [0x6E, 0x75, 0x6C, 0x6C]"
  "js ''true'' = [0x74, 0x72, 0x75, 0x65]"
  "js ''false'' = [0x66, 0x61, 0x6C, 0x73, 0x65]"
  by (simp_all add: js_def u16_def)

lemma skip_ws_token [simp]:
  "skip_ws (0x22 # cs) = 0x22 # cs"
  "skip_ws (0x2C # cs) = 0x2C # cs"
  "skip_ws (0x3A # cs) = 0x3A # cs"
  "skip_ws (0x5B # cs) = 0x5B # cs"
  "skip_ws (0x5D # cs) = 0x5D # cs"
  "skip_ws (0x7B # cs) = 0x7B # cs"
  "skip_ws (0x7D # cs) = 0x7D # cs"
  "skip_ws (0x6E # cs) = 0x6E # cs"
  "skip_ws (0x74 # cs) = 0x74 # cs"
  "skip_ws (0x66 # cs) = 0x66 # cs"
  by (simp_all add: json_space_def)

lemma skip_ws_opener: "opener c \<Longrightarrow> skip_ws (c # cs) = c # cs"
  by (auto simp: opener_def json_space_def)

lemma opener_not_closer: "opener c \<Longrightarrow> c \<noteq> 0x5D \<and> c \<noteq> 0x7D"
  by (auto simp: opener_def)

lemma ser_opener: "\<exists>c cs. ser v = c # cs \<and> opener c"
  by (cases v) (auto simp: js_literals quoteJSON_def opener_def)

lemma pv_null: "parse_value (Suc n) (js ''null'' @ rest) = Some (JNull, rest)"
  by (simp add: js_literals json_space_def)

lemma pv_true: "parse_value (Suc n) (js ''true'' @ rest) = Some (JBool True, rest)"
  by (simp add: js_literals json_space_def)

lemma pv_false: "parse_value (Suc n) (js ''false'' @ rest) = Some (JBool False, rest)"
  by (simp add: js_literals json_space_def)

lemma pv_string: "parse_value (Suc n) (quoteJSON s @ rest) = Some (JStr s, rest)"
  by (simp add: quoteJSON_def parse_chars_quote_units json_space_def del: parse_chars.simps)

lemma pv_array_empty: "parse_value (Suc n) (0x5B # 0x5D # rest) = Some (JArr [], rest)"
  by (simp add: json_space_def)

lemma pv_array:
  "opener c \<Longrightarrow> parse_value (Suc n) (0x5B # c # cs) =
     (case parse_elems n (c # cs) of None \<Rightarrow> None | Some (vs, r) \<Rightarrow> Some (JArr vs, r))"
  by (simp add: skip_ws_opener opener_not_closer json_space_def del: skip_ws.simps(2))

lemma pv_object_empty: "parse_value (Suc n) (0x7B # 0x7D # rest) = Some (JObj [], rest)"
  by (simp add: json_space_def)

lemma pv_object:
  "parse_value (Suc n) (0x7B # 0x22 # cs) =
     (case parse_members n (0x22 # cs) of None \<Rightarrow> None
      | Some (kvs, r) \<Rightarrow> Some (JObj (collect kvs), r))"
  by (simp add: json_space_def)

lemma pe_last:
  "parse_value n s = Some (v, 0x5D # r) \<Longrightarrow> parse_elems (Suc n) s = Some ([v], r)"
  by (simp add: json_space_def)

lemma pe_more:
  "parse_value n s = Some (v, 0x2C # r) \<Longrightarrow>
   parse_elems (Suc n) s =
     (case parse_elems n r of None \<Rightarrow> None | Some (vs, r') \<Rightarrow> Some (v # vs, r'))"
  by (simp add: json_space_def)

lemma pm_last:
  "parse_value n s = Some (v, 0x7D # r) \<Longrightarrow>
   parse_members (Suc n) (quoteJSON k @ 0x3A # s) = Some ([(k, v)], r)"
  by (simp add: quoteJSON_def parse_chars_quote_units json_space_def del: parse_chars.simps)

lemma pm_more:
  "parse_value n s = Some (v, 0x2C # r) \<Longrightarrow>
   parse_members (Suc n) (quoteJSON k @ 0x3A # s) =
     (case parse_members n r of None \<Rightarrow> None | Some (kvs, r') \<Rightarrow> Some ((k, v) # kvs, r'))"
  by (simp add: quoteJSON_def parse_chars_quote_units json_space_def del: parse_chars.simps)

declare parse_value.simps [simp del] parse_elems.simps [simp del] parse_members.simps [simp del]

lemma update_fresh: "k \<notin> fst ` set al \<Longrightarrow> AList.update k v al = al @ [(k, v)]"
  by (induction al) auto

lemma foldl_update_distinct:
  "distinct (map fst (acc @ kvs)) \<Longrightarrow>
   foldl (\<lambda>acc kv. AList.update (fst kv) (snd kv) acc) acc kvs = acc @ kvs"
proof (induction kvs arbitrary: acc)
  case Nil
  show ?case by simp
next
  case (Cons kv kvs)
  from Cons.prems have fresh: "fst kv \<notin> fst ` set acc" by auto
  from Cons.prems have "distinct (map fst ((acc @ [kv]) @ kvs))" by simp
  from Cons.IH [OF this] show ?case by (simp add: update_fresh [OF fresh])
qed

lemma collect_distinct: "distinct (map fst kvs) \<Longrightarrow> collect kvs = kvs"
  using foldl_update_distinct [of "[]" kvs] by (simp add: collect_def)

lemma length_member_text:
  "length (member_text kv) = length (quoteJSON (fst kv)) + 1 + length (ser (snd kv))"
  by (simp add: member_text_def)

lemma length_ser_pos: "0 < length (ser v)"
  using ser_opener [of v] by auto

lemma parse_elems_ser:
  assumes "\<And>v n rest. v \<in> set vs \<Longrightarrow> length (ser v) \<le> n \<Longrightarrow>
             parse_value n (ser v @ rest) = Some (json_image v, rest)"
    and "vs \<noteq> []" and "length (join_comma (map ser vs)) < n"
  shows "parse_elems n (join_comma (map ser vs) @ 0x5D # rest) = Some (map json_image vs, rest)"
  using assms
proof (induction vs arbitrary: n)
  case Nil
  then show ?case by simp
next
  case (Cons v vs)
  from Cons.prems(3) obtain m where n: "n = Suc m" by (cases n) auto
  show ?case
  proof (cases vs)
    case Nil
    with Cons.prems(3) n have "length (ser v) \<le> m" by simp
    from Cons.prems(1) [OF _ this, of "0x5D # rest"]
    have "parse_value m (ser v @ 0x5D # rest) = Some (json_image v, 0x5D # rest)" by simp
    from pe_last [OF this] Nil n show ?thesis by simp
  next
    case (Cons v' vs')
    let ?tail = "join_comma (map ser vs) @ 0x5D # rest"
    from Cons Cons.prems(3) n have len: "length (ser v) \<le> m" "length (join_comma (map ser vs)) < m"
      by simp_all
    from Cons.prems(1) [OF _ len(1), of "0x2C # ?tail"]
    have "parse_value m (ser v @ 0x2C # ?tail) = Some (json_image v, 0x2C # ?tail)" by simp
    from pe_more [OF this]
    have step: "parse_elems (Suc m) (ser v @ 0x2C # ?tail) =
        (case parse_elems m ?tail of None \<Rightarrow> None | Some (vs, r') \<Rightarrow> Some (json_image v # vs, r'))" .
    have "parse_elems m ?tail = Some (map json_image vs, rest)"
      using Cons.IH [of m] Cons.prems(1) Cons len(2) by simp
    with step Cons n show ?thesis by simp
  qed
qed

lemma parse_members_ser:
  assumes "\<And>kv n rest. kv \<in> set kvs \<Longrightarrow> length (ser (snd kv)) \<le> n \<Longrightarrow>
             parse_value n (ser (snd kv) @ rest) = Some (json_image (snd kv), rest)"
    and "kvs \<noteq> []" and "length (join_comma (map member_text kvs)) < n"
  shows "parse_members n (join_comma (map member_text kvs) @ 0x7D # rest) =
           Some (map (\<lambda>kv. (fst kv, json_image (snd kv))) kvs, rest)"
  using assms
proof (induction kvs arbitrary: n)
  case Nil
  then show ?case by simp
next
  case (Cons kv kvs)
  from Cons.prems(3) obtain m where n: "n = Suc m" by (cases n) auto
  show ?case
  proof (cases kvs)
    case Nil
    with Cons.prems(3) n have "length (ser (snd kv)) \<le> m" by (simp add: length_member_text)
    from Cons.prems(1) [OF _ this, of "0x7D # rest"]
    have "parse_value m (ser (snd kv) @ 0x7D # rest) = Some (json_image (snd kv), 0x7D # rest)"
      by simp
    from pm_last [OF this, of "fst kv"] Nil n show ?thesis by (simp add: member_text_def [of kv])
  next
    case (Cons kv' kvs')
    let ?tail = "join_comma (map member_text kvs) @ 0x7D # rest"
    from Cons Cons.prems(3) n
    have len: "length (ser (snd kv)) \<le> m" "length (join_comma (map member_text kvs)) < m"
      by (simp_all add: length_member_text)
    from Cons.prems(1) [OF _ len(1), of "0x2C # ?tail"]
    have "parse_value m (ser (snd kv) @ 0x2C # ?tail) = Some (json_image (snd kv), 0x2C # ?tail)"
      by simp
    from pm_more [OF this, of "fst kv"]
    have step: "parse_members (Suc m) (quoteJSON (fst kv) @ 0x3A # ser (snd kv) @ 0x2C # ?tail) =
        (case parse_members m ?tail of None \<Rightarrow> None
         | Some (kvs, r') \<Rightarrow> Some ((fst kv, json_image (snd kv)) # kvs, r'))" .
    have "parse_members m ?tail = Some (map (\<lambda>kv. (fst kv, json_image (snd kv))) kvs, rest)"
      using Cons.IH [of m] Cons.prems(1) Cons len(2) by simp
    moreover have "join_comma (map member_text (kv # kvs)) =
        member_text kv @ 0x2C # join_comma (map member_text kvs)"
      using Cons by simp
    ultimately show ?thesis using step n by (simp add: member_text_def [of kv])
  qed
qed

lemma join_comma_opener:
  assumes "vs \<noteq> []"
  shows "\<exists>c cs. join_comma (map ser vs) = c # cs \<and> opener c"
proof -
  from assms obtain v vs' where vs: "vs = v # vs'" by (cases vs) auto
  from ser_opener [of v] obtain c cs where "ser v = c # cs" "opener c" by auto
  with vs show ?thesis by (cases vs') auto
qed

lemma join_comma_quote:
  assumes "kvs \<noteq> []"
  shows "\<exists>cs. join_comma (map member_text kvs) = 0x22 # cs"
proof -
  from assms obtain kv kvs' where "kvs = kv # kvs'" by (cases kvs) auto
  then show ?thesis by (cases kvs') (auto simp: member_text_def quoteJSON_def)
qed

lemma ser_JObj:
  "ser (JObj kvs) =
     0x7B # join_comma (map member_text (filter (\<lambda>kv. snd kv \<noteq> JUndefined) kvs)) @ [0x7D]"
  by (simp add: member_text_def [abs_def])

lemma parse_value_ser:
  "well_formed v \<Longrightarrow> length (ser v) \<le> n \<Longrightarrow>
   parse_value n (ser v @ rest) = Some (json_image v, rest)"
proof (induction v arbitrary: n rest)
  case JUndefined
  then obtain m where "n = Suc m"
    using length_ser_pos [of JUndefined] by (cases n) (auto simp del: ser.simps)
  then show ?case by (simp add: pv_null)
next
  case JNull
  then obtain m where "n = Suc m"
    using length_ser_pos [of JNull] by (cases n) (auto simp del: ser.simps)
  then show ?case by (simp add: pv_null)
next
  case (JBool b)
  then obtain m where "n = Suc m"
    using length_ser_pos [of "JBool b"] by (cases n) (auto simp del: ser.simps)
  then show ?case by (simp add: pv_true pv_false)
next
  case (JStr s)
  then obtain m where "n = Suc m"
    using length_ser_pos [of "JStr s"] by (cases n) (auto simp del: ser.simps)
  then show ?case by (simp add: pv_string)
next
  case (JArr vs)
  from JArr.prems(2) obtain m where n: "n = Suc m" by (cases n) auto
  show ?case
  proof (cases "vs = []")
    case True
    with n show ?thesis by (simp add: pv_array_empty)
  next
    case False
    from join_comma_opener [OF False] obtain c cs
      where first: "join_comma (map ser vs) = c # cs" "opener c" by auto
    have ih: "parse_value k (ser v @ r) = Some (json_image v, r)"
      if "v \<in> set vs" "length (ser v) \<le> k" for v k r
      using JArr.IH [OF that(1) _ that(2)] JArr.prems(1) that(1) by (simp add: list_all_iff)
    from JArr.prems(2) n have "length (join_comma (map ser vs)) < m" by simp
    from parse_elems_ser [OF ih False this, of rest]
    have "parse_elems m (c # cs @ 0x5D # rest) = Some (map json_image vs, rest)"
      by (simp add: first)
    with pv_array [OF first(2), of m "cs @ 0x5D # rest"] n first show ?thesis by simp
  qed
next
  case (JObj kvs)
  let ?kvs = "filter (\<lambda>kv. snd kv \<noteq> JUndefined) kvs"
  let ?img = "map (\<lambda>kv. (fst kv, json_image (snd kv))) ?kvs"
  from JObj.prems(2) obtain m where n: "n = Suc m" by (cases n) auto
  show ?case
  proof (cases "?kvs = []")
    case True
    with n show ?thesis by (simp add: ser_JObj pv_object_empty del: ser.simps)
  next
    case False
    from join_comma_quote [OF False] obtain cs
      where first: "join_comma (map member_text ?kvs) = 0x22 # cs" by auto
    have ih: "parse_value k (ser (snd kv) @ r) = Some (json_image (snd kv), r)"
      if "kv \<in> set ?kvs" "length (ser (snd kv)) \<le> k" for kv k r
    proof -
      from that(1) have kv: "kv \<in> set kvs" by simp
      moreover have "snd kv \<in> Basic_BNFs.snds kv" by (cases kv) simp
      moreover from JObj.prems(1) kv have "well_formed (snd kv)" by (simp add: list_all_iff)
      ultimately show ?thesis using JObj.IH that(2) by blast
    qed
    from JObj.prems(2) n have "length (join_comma (map member_text ?kvs)) < m"
      by (simp add: ser_JObj del: ser.simps)
    from parse_members_ser [OF ih False this, of rest]
    have "parse_members m (0x22 # cs @ 0x7D # rest) = Some (?img, rest)"
      by (simp add: first)
    moreover have "collect ?img = ?img"
    proof (rule collect_distinct)
      have "map fst ?img = map fst ?kvs" by (simp add: comp_def)
      moreover from JObj.prems(1) have "distinct (map fst ?kvs)" by (simp add: distinct_map_filter)
      ultimately show "distinct (map fst ?img)" by (simp only:)
    qed
    ultimately show ?thesis
      using pv_object [of m "cs @ 0x7D # rest"] n first
      by (simp add: ser_JObj del: ser.simps)
  qed
qed

lemma JSON_parse_ser:
  assumes "well_formed v"
  shows "JSON_parse (ser v) = Inr (json_image v)"
  using parse_value_ser [OF assms, of "Suc (length (ser v))" "[]"]
  by (simp add: JSON_parse_def)

subsection \<open>The default beacon URL\<close>

lemma trackData_JObj: "\<exists>kvs. trackData c tt td w = JObj kvs"
  by (simp add: trackData_def Let_def)

lemma trackData_defined: "trackData c tt td w \<noteq> JUndefined"
  by (simp add: trackData_def Let_def)

lemma encodeData_decodeData:
  assumes "v \<noteq> JUndefined" "well_formed v" "list_all (\<lambda>c. c \<le> 0xFF) (ser v)"
  shows "encodeData v = Inr (concat (map esc (b64_encode (map unat (ser v)))))"
    and "decodeData (concat (map esc (b64_encode (map unat (ser v))))) = Inr (json_image v)"
proof -
  from assms(3) have "list_all (\<lambda>b. b < 256) (map unat (ser v))"
    by (auto simp: list_all_iff word_le_nat_alt)
  from decodeURIComponent_encodeURIComponent_b64 [OF b64_encode_text [OF this]]
  have uri: "encodeURIComponent (b64_encode (map unat (ser v))) =
               Inr (concat (map esc (b64_encode (map unat (ser v)))))"
    "decodeURIComponent (concat (map esc (b64_encode (map unat (ser v))))) =
       Inr (b64_encode (map unat (ser v)))" by simp_all
  from assms(1) show "encodeData v = Inr (concat (map esc (b64_encode (map unat (ser v)))))"
    by (simp add: encodeData_def JSON_stringify_def atob_btoa(1) [OF assms(3)] uri(1) del: ser.simps)
  show "decodeData (concat (map esc (b64_encode (map unat (ser v))))) = Inr (json_image v)"
    by (simp add: decodeData_def uri(2) atob_btoa(2) [OF assms(3)] JSON_parse_ser [OF assms(2)]
        del: ser.simps)
qed

lemma encodeData_throws:
  assumes "v \<noteq> JUndefined" "\<not> list_all (\<lambda>c. c \<le> 0xFF) (ser v)"
  shows "encodeData v = Inl InvalidCharacterError"
  using assms by (simp add: encodeData_def JSON_stringify_def btoa_def del: ser.simps)

text \<open>
  C1, amended. Without an override, for a merged payload whose JSON text has no code
  unit above 0xFF, \<^verbatim>\<open>track\<close> returns normally and sets the image source to
  \<^verbatim>\<open>https://www.paypal.com/targeting/track/\<close>, the tracking type, \<^verbatim>\<open>?data=\<close> and
  \<open>enc\<close>, where \<open>enc\<close> is the JSON text of the payload, base64-encoded and then
  URL-encoded; URL-decoding, base64-decoding and JSON-parsing \<open>enc\<close> gives the payload
  as JSON renders it: without the properties that hold \<^verbatim>\<open>undefined\<close> and with \<^verbatim>\<open>null\<close>
  for \<^verbatim>\<open>undefined\<close> array elements.
\<close>

theorem default_beacon_round_trip:
  assumes "paramsToBeaconUrl config = None"
    and "well_formed (trackData config trackingType trackingData (ensureIdentity w))"
    and "list_all (\<lambda>c. c \<le> 0xFF)
           (ser (trackData config trackingType trackingData (ensureIdentity w)))"
  shows "\<exists>enc.
       fst (track config trackingType trackingData w) = Inr ()
     \<and> images (snd (track config trackingType trackingData w)) =
         images w @ [js ''https://www.paypal.com/targeting/track/'' @ trackingType
                     @ js ''?data='' @ enc]
     \<and> encodeData (trackData config trackingType trackingData (ensureIdentity w)) = Inr enc
     \<and> decodeData enc = Inr (json_image (trackData config trackingType trackingData (ensureIdentity w)))"
proof -
  let ?data = "trackData config trackingType trackingData (ensureIdentity w)"
  from encodeData_decodeData [OF trackData_defined assms(2,3)] assms(1) show ?thesis
    by (simp add: track_fst track_images beaconUrl_def)
qed


lemma js_latin1: "list_all (\<lambda>c. c \<le> 0xFF) (js s)"
proof -
  have "u16 c \<le> 0xFF" for c
  proof -
    have "(of_char c :: nat) mod 256 < 256" by (rule mod_less_divisor) simp
    then have lt: "(of_char c :: nat) < 256" by (simp only: of_char_mod_256)
    then have "(of_char c :: nat) < 65536" by (rule less_trans) simp
    then have "unat (u16 c) = of_char c" by (simp only: u16_def unat_of_nat16)
    moreover from lt have "(of_char c :: nat) \<le> 255" by linarith
    moreover have "unat (0xFF :: 16 word) = 255" by simp
    ultimately show ?thesis by (simp only: word_le_nat_alt)
  qed
  then show ?thesis by (simp add: js_def list_all_iff)
qed

lemma hexdigit_latin1: "n < 16 \<Longrightarrow> hexdigit n \<le> 0xFF"
  unfolding hexdigit_def
  by (auto simp del: of_nat_add simp: word_le_nat_alt unat_of_nat16)

lemma hex4_latin1: "list_all (\<lambda>c. c \<le> 0xFF) (hex4 c)"
proof -
  have "unat c < 65536" using unsigned_less [of c, where ?'a = nat] by simp
  then have "unat c div 4096 < 16" by simp
  then show ?thesis by (simp add: hex4_def Let_def hexdigit_latin1)
qed

lemma quote1_latin1: "c \<le> 0xFF \<Longrightarrow> list_all (\<lambda>c. c \<le> 0xFF) (quote1 c)"
  by (simp add: quote1_def hex4_latin1)

lemma quote_units_latin1:
  "list_all (\<lambda>c. c \<le> 0xFF) s \<Longrightarrow> list_all (\<lambda>c. c \<le> 0xFF) (quote_units s)"
proof (induction s rule: quote_units.induct)
  case (3 c d cs)
  then have "\<not> is_lead c" by (auto simp: is_lead_def word_le_nat_alt)
  with 3 show ?case by (simp add: quote1_latin1)
qed (simp_all add: quote1_latin1)

lemma quoteJSON_latin1:
  "list_all (\<lambda>c. c \<le> 0xFF) s \<Longrightarrow> list_all (\<lambda>c. c \<le> 0xFF) (quoteJSON s)"
  by (simp add: quoteJSON_def quote_units_latin1)

lemma join_comma_latin1:
  "list_all (list_all (\<lambda>c. c \<le> 0xFF)) xs \<Longrightarrow> list_all (\<lambda>c. c \<le> (0xFF :: 16 word)) (join_comma xs)"
  by (induction xs rule: join_comma.induct) simp_all

lemma ser_latin1: "latin1 v \<Longrightarrow> list_all (\<lambda>c. c \<le> 0xFF) (ser v)"
proof (induction v)
  case (JArr vs)
  then have "list_all (list_all (\<lambda>c. c \<le> 0xFF)) (map ser vs)"
    by (simp add: list_all_iff)
  from join_comma_latin1 [OF this] show ?case by simp
next
  case (JObj kvs)
  have "list_all (\<lambda>c. c \<le> 0xFF) (member_text kv)" if "kv \<in> set kvs" for kv
  proof -
    have "snd kv \<in> Basic_BNFs.snds kv" by (cases kv) simp
    with JObj that have "list_all (\<lambda>c. c \<le> 0xFF) (ser (snd kv))"
      by (auto simp: list_all_iff)
    moreover from JObj.prems that have "list_all (\<lambda>c. c \<le> 0xFF) (fst kv)"
      by (auto simp: list_all_iff)
    ultimately show ?thesis by (simp add: member_text_def quoteJSON_latin1)
  qed
  then have "list_all (list_all (\<lambda>c. c \<le> 0xFF))
               (map member_text (filter (\<lambda>kv. snd kv \<noteq> JUndefined) kvs))"
    by (auto simp: list_all_iff)
  from join_comma_latin1 [OF this] show ?case by (simp add: ser_JObj del: ser.simps)
qed (simp_all add: js_latin1 quoteJSON_latin1)

lemma example_payload:
  "trackData defaultTrackerConfig (js ''view'') (JObj [(js ''page'', JStr (js ''/''))])
     (ensureIdentity example_world) =
   JObj [(js ''page'', JStr (js ''/'')),
         (js ''user'', JObj [(js ''email'', JUndefined), (js ''name'', JUndefined),
                            (js ''id'', JStr (js ''id-1''))]),
         (js ''property'', JUndefined),
         (js ''trackingType'', JStr (js ''view'')),
         (js ''clientId'', JStr (js ''abc'')),
         (js ''merchantId'', JStr (js ''xyz''))]"
  by (simp add: trackData_def defaultTrackerConfig_def example_world_def set_prop_def
      identity_defs getUserIdCookie_def getCookie_def js_or_def)


lemma decimal_inverse: "foldl (\<lambda>a c. 10 * a + (of_char c - 48)) 0 (decimal n) = n"
proof (induction n rule: decimal.induct)
  case (1 n)
  show ?case
  proof (cases "n < 10")
    case True
    then have "decimal n = [char_of (48 + n)]" by (subst decimal.simps) simp
    with True show ?thesis by simp
  next
    case False
    then have "decimal n = decimal (n div 10) @ [char_of (48 + n mod 10)]"
      by (subst decimal.simps) simp
    moreover have "(48 + n mod 10) mod 256 = 48 + n mod 10"
      by (rule mod_less) (simp add: less_trans [OF _ _])
    ultimately show ?thesis using 1 [OF False] by simp
  qed
qed

lemma decimal_inj:
  assumes "decimal m = decimal n"
  shows "m = n"
proof -
  have "m = foldl (\<lambda>a c. 10 * a + (of_char c - 48)) 0 (decimal m)"
    by (simp only: decimal_inverse)
  also have "\<dots> = foldl (\<lambda>a c. 10 * a + (of_char c - 48)) 0 (decimal n)"
    by (simp only: assms)
  also have "\<dots> = n" by (rule decimal_inverse)
  finally show ?thesis .
qed

lemma indexed_keys: "map fst (indexed vs) = map (\<lambda>i. js (decimal i)) [0..<length vs]"
  by (simp add: indexed_def)

lemma indexed_values: "map snd (indexed vs) = vs"
  by (simp add: indexed_def)

lemma well_formed_indexed:
  assumes "list_all well_formed vs"
  shows "well_formed (JObj (indexed vs))"
proof -
  have "distinct (map fst (indexed vs))"
    unfolding indexed_keys by (auto simp: distinct_map inj_on_def dest: decimal_inj)
  moreover have "list_all (\<lambda>kv. well_formed (snd kv)) (indexed vs)"
  proof -
    have "list_all well_formed (map snd (indexed vs))" using assms by (simp only: indexed_values)
    then show ?thesis by (simp add: list_all_iff)
  qed
  ultimately show ?thesis by simp
qed

lemma well_formed_spread: "well_formed v \<Longrightarrow> well_formed (JObj (spread v))"
proof (cases v)
  case (JStr s)
  have "list_all well_formed (map (\<lambda>c. JStr [c]) s)" by (simp add: list_all_iff)
  from well_formed_indexed [OF this] JStr show ?thesis by (simp del: well_formed.simps(2))
next
  case (JArr vs)
  assume "well_formed v"
  with JArr have "list_all well_formed vs" by simp
  from well_formed_indexed [OF this] JArr show ?thesis by (simp del: well_formed.simps(2))
qed simp_all

lemma list_all_update:
  "list_all P al \<Longrightarrow> P (k, v) \<Longrightarrow> list_all P (AList.update k v al)"
  by (induction al) auto

lemma well_formed_set_prop:
  "well_formed (JObj kvs) \<Longrightarrow> well_formed v \<Longrightarrow> well_formed (JObj (set_prop k v kvs))"
  by (simp add: set_prop_def distinct_update list_all_update)

lemma trackData_well_formed:
  assumes "well_formed trackingData" "well_formed (user config)" "well_formed (property config)"
    and "well_formed (getUserIdCookie w)"
  shows "well_formed (trackData config trackingType trackingData w)"
  unfolding trackData_def Let_def
  by (intro well_formed_set_prop well_formed_spread assms) simp_all


lemma example_payload_image:
  "json_image (trackData defaultTrackerConfig (js ''view'') (JObj [(js ''page'', JStr (js ''/''))])
     (ensureIdentity example_world)) =
   JObj [(js ''page'', JStr (js ''/'')),
         (js ''user'', JObj [(js ''id'', JStr (js ''id-1''))]),
         (js ''trackingType'', JStr (js ''view'')),
         (js ''clientId'', JStr (js ''abc'')),
         (js ''merchantId'', JStr (js ''xyz''))]"
  by (simp add: example_payload)

lemma example_payload_well_formed:
  "well_formed (trackData defaultTrackerConfig (js ''view'') (JObj [(js ''page'', JStr (js ''/''))])
     (ensureIdentity example_world))"
  by (simp add: example_payload)

lemma example_payload_latin1:
  "list_all (\<lambda>c. c \<le> 0xFF)
     (ser (trackData defaultTrackerConfig (js ''view'') (JObj [(js ''page'', JStr (js ''/''))])
        (ensureIdentity example_world)))"
  by (rule ser_latin1) (simp add: example_payload js_latin1)

theorem default_beacon_round_trip_witness:
  "paramsToBeaconUrl defaultTrackerConfig = None
   \<and> (\<exists>enc. images (snd (track defaultTrackerConfig (js ''view'')
                   (JObj [(js ''page'', JStr (js ''/''))]) example_world)) =
               [js ''https://www.paypal.com/targeting/track/'' @ js ''view'' @ js ''?data='' @ enc]
            \<and> decodeData enc =
               Inr (JObj [(js ''page'', JStr (js ''/'')),
                          (js ''user'', JObj [(js ''id'', JStr (js ''id-1''))]),
                          (js ''trackingType'', JStr (js ''view'')),
                          (js ''clientId'', JStr (js ''abc'')),
                          (js ''merchantId'', JStr (js ''xyz''))]))"
proof -
  have h: "paramsToBeaconUrl defaultTrackerConfig = None" by (simp add: defaultTrackerConfig_def)
  have i: "images example_world = []" by (simp add: example_world_def)
  from default_beacon_round_trip [OF h example_payload_well_formed example_payload_latin1]
  obtain enc where
    "images (snd (track defaultTrackerConfig (js ''view'') (JObj [(js ''page'', JStr (js ''/''))])
        example_world)) =
       images example_world @ [js ''https://www.paypal.com/targeting/track/'' @ js ''view''
                               @ js ''?data='' @ enc]"
    "decodeData enc = Inr (json_image (trackData defaultTrackerConfig (js ''view'')
        (JObj [(js ''page'', JStr (js ''/''))]) (ensureIdentity example_world)))"
    by blast
  then show ?thesis unfolding example_payload_image i using h by auto
qed

lemma example_unicode_payload:
  "trackData defaultTrackerConfig (js ''view'') (JObj [(js ''title'', JStr [0x4E2D])])
     (ensureIdentity example_world) =
   JObj [(js ''title'', JStr [0x4E2D]),
         (js ''user'', JObj [(js ''email'', JUndefined), (js ''name'', JUndefined),
                            (js ''id'', JStr (js ''id-1''))]),
         (js ''property'', JUndefined),
         (js ''trackingType'', JStr (js ''view'')),
         (js ''clientId'', JStr (js ''abc'')),
         (js ''merchantId'', JStr (js ''xyz''))]"
  by (simp add: trackData_def defaultTrackerConfig_def example_world_def set_prop_def
      identity_defs getUserIdCookie_def getCookie_def js_or_def)

lemma example_unicode_text:
  "\<not> list_all (\<lambda>c. c \<le> 0xFF)
     (ser (trackData defaultTrackerConfig (js ''view'') (JObj [(js ''title'', JStr [0x4E2D])])
        (ensureIdentity example_world)))"
  by (simp add: example_unicode_payload quoteJSON_def quote1_def is_lead_def is_trail_def)

text \<open>
  C1 as the claim states it fails in two ways. A payload with a character outside
  Latin-1 (here U+4E2D in a page title) makes \<^verbatim>\<open>btoa\<close> throw, and no image source is
  set. And for the default configuration the payload has \<^verbatim>\<open>property: undefined\<close> and
  a user with \<^verbatim>\<open>email: undefined\<close> and \<^verbatim>\<open>name: undefined\<close>, which the decoded value
  does not have.
\<close>

theorem default_beacon_counterexample:
  "fst (track defaultTrackerConfig (js ''view'') (JObj [(js ''title'', JStr [0x4E2D])])
        example_world) = Inl InvalidCharacterError
   \<and> images (snd (track defaultTrackerConfig (js ''view'') (JObj [(js ''title'', JStr [0x4E2D])])
        example_world)) = []
   \<and> payloads (snd (track defaultTrackerConfig (js ''view'') (JObj [(js ''page'', JStr (js ''/''))])
        example_world)) =
       [JObj [(js ''page'', JStr (js ''/'')),
              (js ''user'', JObj [(js ''email'', JUndefined), (js ''name'', JUndefined),
                                 (js ''id'', JStr (js ''id-1''))]),
              (js ''property'', JUndefined),
              (js ''trackingType'', JStr (js ''view'')),
              (js ''clientId'', JStr (js ''abc'')),
              (js ''merchantId'', JStr (js ''xyz''))]]
   \<and> (case encodeData (trackData defaultTrackerConfig (js ''view'')
                (JObj [(js ''page'', JStr (js ''/''))]) (ensureIdentity example_world)) of
          Inl e \<Rightarrow> Inl e
        | Inr enc \<Rightarrow> decodeData enc) =
       Inr (JObj [(js ''page'', JStr (js ''/'')),
                  (js ''user'', JObj [(js ''id'', JStr (js ''id-1''))]),
                  (js ''trackingType'', JStr (js ''view'')),
                  (js ''clientId'', JStr (js ''abc'')),
                  (js ''merchantId'', JStr (js ''xyz''))])"
proof -
  let ?bad = "trackData defaultTrackerConfig (js ''view'') (JObj [(js ''title'', JStr [0x4E2D])])
                (ensureIdentity example_world)"
  let ?good = "trackData defaultTrackerConfig (js ''view'') (JObj [(js ''page'', JStr (js ''/''))])
                (ensureIdentity example_world)"
  have none: "paramsToBeaconUrl defaultTrackerConfig = None" by (simp add: defaultTrackerConfig_def)
  from encodeData_throws [OF trackData_defined example_unicode_text] none
  have 1: "fst (track defaultTrackerConfig (js ''view'') (JObj [(js ''title'', JStr [0x4E2D])])
        example_world) = Inl InvalidCharacterError"
    and 2: "images (snd (track defaultTrackerConfig (js ''view'') (JObj [(js ''title'', JStr [0x4E2D])])
        example_world)) = []"
    by (simp_all add: track_fst track_images beaconUrl_def example_world_def)
  have 3: "payloads (snd (track defaultTrackerConfig (js ''view'') (JObj [(js ''page'', JStr (js ''/''))])
        example_world)) = [?good]"
    by (simp add: track_payloads example_world_def)
  from encodeData_decodeData [OF trackData_defined example_payload_well_formed example_payload_latin1]
  have 4: "(case encodeData ?good of Inl e \<Rightarrow> Inl e | Inr enc \<Rightarrow> decodeData enc) =
      Inr (json_image ?good)" by simp
  from 1 2 3 4 show ?thesis unfolding example_payload_image unfolding example_payload by blast
qed

subsection \<open>When a beacon is sent\<close>

text \<open>
  Without an override, \<^verbatim>\<open>track\<close> sends exactly one beacon when the JSON text of the
  payload has no code unit above 0xFF, and throws before creating the image otherwise.
\<close>

lemma encodeData_latin1:
  assumes "v \<noteq> JUndefined" "list_all (\<lambda>c. c \<le> 0xFF) (ser v)"
  shows "encodeData v = Inr (concat (map esc (b64_encode (map unat (ser v)))))"
proof -
  from assms(2) have "list_all (\<lambda>b. b < 256) (map unat (ser v))"
    by (auto simp: list_all_iff word_le_nat_alt)
  from decodeURIComponent_encodeURIComponent_b64(1) [OF b64_encode_text [OF this]] assms(1)
  show ?thesis
    by (simp add: encodeData_def JSON_stringify_def atob_btoa(1) [OF assms(2)] del: ser.simps)
qed

lemma track_sends_one:
  assumes "paramsToBeaconUrl c = None"
    and "list_all (\<lambda>c. c \<le> 0xFF) (ser (trackData c tt td (ensureIdentity w)))"
  shows "fst (track c tt td w) = Inr ()"
    and "images (snd (track c tt td w)) =
           images w @ [js ''https://www.paypal.com/targeting/track/'' @ tt @ js ''?data='' @
             concat (map esc (b64_encode (map unat (ser (trackData c tt td (ensureIdentity w))))))]"
  using encodeData_latin1 [OF trackData_defined assms(2)] assms(1)
  by (simp_all add: track_fst track_images beaconUrl_def)

lemma track_sends_nothing:
  assumes "paramsToBeaconUrl c = None"
    and "\<not> list_all (\<lambda>c. c \<le> 0xFF) (ser (trackData c tt td (ensureIdentity w)))"
  shows "fst (track c tt td w) = Inl InvalidCharacterError"
    and "images (snd (track c tt td w)) = images w"
    and "body (snd (track c tt td w)) = body w"
  using encodeData_throws [OF trackData_defined assms(2)] assms(1)
  by (simp_all add: track_fst track_images beaconUrl_def track_def Let_def)

lemma example_unicode_user_payload:
  "trackData (defaultTrackerConfig\<lparr>user := JObj [(js ''email'', JUndefined), (js ''name'', JStr [0x4E2D])]\<rparr>)
     (js ''setUser'') (JObj [(js ''oldUserId'', JNull)]) (ensureIdentity example_world) =
   JObj [(js ''oldUserId'', JNull),
         (js ''user'', JObj [(js ''email'', JUndefined), (js ''name'', JStr [0x4E2D]),
                            (js ''id'', JStr (js ''id-1''))]),
         (js ''property'', JUndefined),
         (js ''trackingType'', JStr (js ''setUser'')),
         (js ''clientId'', JStr (js ''abc'')),
         (js ''merchantId'', JStr (js ''xyz''))]"
  by (simp add: trackData_def defaultTrackerConfig_def example_world_def set_prop_def
      identity_defs getUserIdCookie_def getCookie_def js_or_def)

lemma example_unicode_user_text:
  "\<not> list_all (\<lambda>c. c \<le> 0xFF)
     (ser (trackData (defaultTrackerConfig\<lparr>user := JObj [(js ''email'', JUndefined), (js ''name'', JStr [0x4E2D])]\<rparr>)
        (js ''setUser'') (JObj [(js ''oldUserId'', JNull)]) (ensureIdentity example_world)))"
  by (simp add: example_unicode_user_payload quoteJSON_def quote1_def is_lead_def is_trail_def)

text \<open>
  C4. The claim wants every \<^verbatim>\<open>setUser\<close> call to dispatch exactly one \<^verbatim>\<open>setUser\<close>
  event. For a user whose name has a character outside Latin-1 (here U+4E2D) and no
  override, the JSON text of the payload has a code unit above 0xFF, \<^verbatim>\<open>btoa\<close> at
  line 142 throws, the call ends with InvalidCharacterError and no image is created:
  no event is sent.
\<close>

theorem setUser_unicode_name_sends_nothing:
  "fst (setUser example_unicode_user defaultTrackerConfig example_world) = Inl InvalidCharacterError
   \<and> images (snd (snd (setUser example_unicode_user defaultTrackerConfig example_world))) = []
   \<and> body (snd (snd (setUser example_unicode_user defaultTrackerConfig example_world))) = Some []"
proof -
  let ?c = "defaultTrackerConfig\<lparr>user := JObj [(js ''email'', JUndefined), (js ''name'', JStr [0x4E2D])]\<rparr>"
  have u: "member example_unicode_user (js ''user'') = Inr (JObj [(js ''name'', JStr [0x4E2D])])"
    "member (JObj [(js ''name'', JStr [0x4E2D])]) (js ''email'') = Inr JUndefined"
    "member (JObj [(js ''name'', JStr [0x4E2D])]) (js ''name'') = Inr (JStr [0x4E2D])"
    by (simp_all add: example_unicode_user_def)
  have c: "defaultTrackerConfig\<lparr>user := JObj (set_prop ''name'' (js_or (JStr [0x4E2D]) (stored defaultTrackerConfig ''name''))
             (set_prop ''email'' (js_or JUndefined (stored defaultTrackerConfig ''email''))
             (spread (user defaultTrackerConfig))))\<rparr> = ?c"
    by (simp add: defaultTrackerConfig_def stored_def js_or_def set_prop_def)
  have o: "getUserIdCookie example_world = JNull"
    by (simp add: getUserIdCookie_def getCookie_def example_world_def js_or_def)
  have n: "paramsToBeaconUrl ?c = None" by (simp add: defaultTrackerConfig_def)
  have w: "images example_world = []" "body example_world = Some []"
    by (simp_all add: example_world_def)
  from track_sends_nothing [OF n example_unicode_user_text] show ?thesis
    unfolding setUser_eq [OF u] c o w by simp
qed

lemma example_unicode_cart_payload:
  "trackData defaultTrackerConfig (js ''cartEvent'')
     (JObj (set_prop ''cartEventType'' (JStr (js ''addToCart'')) (spread example_unicode_cart)))
     (ensureIdentity (setCookie (js ''paypal-cr-cart'') (JSON_stringify example_unicode_cart)
        sevenDays example_world)) =
   JObj [(js ''cartId'', JStr (js ''c1'')),
         (js ''items'', JArr [JObj [(js ''id'', JStr (js ''sku1'')), (js ''title'', JStr [0x4E2D])]]),
         (js ''cartEventType'', JStr (js ''addToCart'')),
         (js ''user'', JObj [(js ''email'', JUndefined), (js ''name'', JUndefined),
                            (js ''id'', JStr (js ''id-1''))]),
         (js ''property'', JUndefined),
         (js ''trackingType'', JStr (js ''cartEvent'')),
         (js ''clientId'', JStr (js ''abc'')),
         (js ''merchantId'', JStr (js ''xyz''))]"
  by (simp add: trackData_def defaultTrackerConfig_def example_world_def set_prop_def
      example_unicode_cart_def identity_defs getUserIdCookie_def getCookie_def js_or_def
      del: ser.simps)

lemma example_unicode_cart_text:
  "\<not> list_all (\<lambda>c. c \<le> 0xFF)
     (ser (trackData defaultTrackerConfig (js ''cartEvent'')
        (JObj (set_prop ''cartEventType'' (JStr (js ''addToCart'')) (spread example_unicode_cart)))
        (ensureIdentity (setCookie (js ''paypal-cr-cart'') (JSON_stringify example_unicode_cart)
           sevenDays example_world))))"
  unfolding example_unicode_cart_payload
  by (simp add: quoteJSON_def quote1_def is_lead_def is_trail_def)

text \<open>
  C8. The claim wants every \<^verbatim>\<open>addToCart\<close> call to dispatch the cart event after the
  snapshot is stored. For a cart with an item title outside Latin-1 (here U+4E2D) and
  no override, \<^verbatim>\<open>btoa\<close> at line 142 throws in the same way: the snapshot is stored,
  the call ends with InvalidCharacterError and no image is created.
\<close>

theorem addToCart_unicode_title_sends_nothing:
  "fst (addToCart example_unicode_cart defaultTrackerConfig example_world) = Inl InvalidCharacterError
   \<and> images (snd (snd (addToCart example_unicode_cart defaultTrackerConfig example_world))) = []
   \<and> body (snd (snd (addToCart example_unicode_cart defaultTrackerConfig example_world))) = Some []"
proof -
  have n: "paramsToBeaconUrl defaultTrackerConfig = None" by (simp add: defaultTrackerConfig_def)
  have w: "images example_world = []" "body example_world = Some []"
    by (simp_all add: example_world_def)
  from track_sends_nothing [OF n example_unicode_cart_text] w show ?thesis
    unfolding addToCart_eq trackCartEvent_def by (simp add: setCookie_def)
qed

end
